theory Spec2Isabelle
  imports Main "HOL-Library.AList"
begin

section \<open>Entities of the cache\<close>

text \<open>
  Identifiers (snowflakes) are strings, as in the sources. An entity that the sources
  mutate in place through a reference obtained from a store is modelled by writing the
  changed value back to the store entry it was read from.
\<close>

type_synonym snowflake = string

text \<open>
  Modelled from the spec: the User structure (structures/user) is not part of the sources;
  its essential attributes are the id, the username and the bot flag. A raw user payload
  carries the id and, optionally, the other fields; merging assigns the fields that are
  present.
\<close>

record user =
  user_id :: snowflake
  username :: string
  bot :: bool

record raw_user =
  raw_user_id :: snowflake
  raw_username :: "string option"
  raw_bot :: "bool option"

definition User_merge :: "user \<Rightarrow> raw_user \<Rightarrow> user" where
  "User_merge u raw =
     u\<lparr>user_id := raw_user_id raw,
       username := (case raw_username raw of None \<Rightarrow> username u | Some n \<Rightarrow> n),
       bot := (case raw_bot raw of None \<Rightarrow> bot u | Some b \<Rightarrow> b)\<rparr>"

definition User_new :: "raw_user \<Rightarrow> user" where
  "User_new raw = User_merge \<lparr>user_id = [], username = [], bot = False\<rparr> raw"

text \<open>
  Modelled from the spec: the Role and Guild structures are not part of the sources. A role
  has an id, its guild's id, a permission bitmask, a colour, a position and the hoisted
  flag. A guild has its id, the member count, its role collection (keyed by role id), the
  unavailable flag and the subscription counter. The default role of a guild is the role
  whose id is the guild's own id (the "everyone" entry, keyed by the guild id itself).
\<close>

record role =
  role_id :: snowflake
  role_guildId :: snowflake
  permissions :: int
  color :: int
  position :: int
  hoist :: bool

record guild =
  guild_id :: snowflake
  memberCount :: int
  guild_roles :: "role list"
  unavailable :: bool
  premiumSubscriptionCount :: int

text \<open>The Member structure of the sources, with its fields and their defaults.\<close>

record member =
  priv_roles :: "(snowflake \<times> role option) list option"
  deaf :: bool
  guildId :: snowflake
  hoistedRoleId :: "snowflake option"
  joinedAtUnix :: int
  mute :: bool
  nick :: "string option"
  premiumSinceUnix :: int
  member_user :: user

text \<open>
  The payload of a member: \<open>guild_id\<close> and \<open>user\<close> are always present in the events
  modelled here; every other key may be absent (\<open>None\<close>). A key that is present with
  the value null is \<open>Some None\<close>. Timestamps are carried as the number that
  \<open>new Date(value).getTime()\<close> yields; parsing dates is outside the model.
\<close>

record raw_member =
  raw_guild_id :: snowflake
  raw_member_user :: raw_user
  raw_roles :: "snowflake list option"
  raw_nick :: "string option option"
  raw_deaf :: "bool option"
  raw_mute :: "bool option"
  raw_joined_at :: "int option option"
  raw_premium_since :: "int option option"
  raw_hoisted_role :: "snowflake option option"

text \<open>
  Modelled from the spec: the Channel, Presence, VoiceState, Reaction and Message
  structures are not part of the sources; the fields below are the ones the dispatch
  handlers read and write.
\<close>

record channel =
  channel_id :: snowflake
  channel_guildId :: "snowflake option"
  recipients :: "snowflake list"

record presence =
  presence_user_id :: snowflake
  status :: string
  guildIds :: "snowflake list"

record voice_state =
  vs_guildId :: "snowflake option"
  vs_channelId :: "snowflake option"
  vs_userId :: snowflake

record reaction =
  emoji_id :: "snowflake option"
  emoji_name :: string
  reaction_count :: int
  reaction_me :: bool

record message =
  message_id :: snowflake
  message_channelId :: snowflake
  message_guildId :: "snowflake option"
  author_id :: snowflake
  priv_reactions :: "(string \<times> reaction) list option"

datatype MessageCacheTypes = CHANNEL | GUILD | USER

section \<open>Entity stores\<close>

text \<open>
  Modelled from the spec: the collections (BaseCollection, BaseSet and the client's stores)
  are not part of the sources. A single-key store offers \<open>has\<close>, \<open>get\<close>,
  \<open>insert(entity)\<close> and \<open>delete\<close>, and keys an entity by its own id; it is a list
  of entities in insertion order. A composite store is keyed by a pair and is an
  association list on pairs; the outer key alone selects, or deletes, everything stored
  under it. A store that is disabled ignores inserts and answers every read with
  absent.
\<close>

definition coll_get :: "('a \<Rightarrow> 'k) \<Rightarrow> 'a list \<Rightarrow> 'k \<Rightarrow> 'a option" where
  "coll_get key xs k = find (\<lambda>x. key x = k) xs"

definition coll_has :: "('a \<Rightarrow> 'k) \<Rightarrow> 'a list \<Rightarrow> 'k \<Rightarrow> bool" where
  "coll_has key xs k = (coll_get key xs k \<noteq> None)"

definition coll_set :: "('a \<Rightarrow> 'k) \<Rightarrow> 'a \<Rightarrow> 'a list \<Rightarrow> 'a list" where
  "coll_set key x xs =
     (if coll_has key xs (key x) then map (\<lambda>y. if key y = key x then x else y) xs
      else xs @ [x])"

definition coll_delete :: "('a \<Rightarrow> 'k) \<Rightarrow> 'k \<Rightarrow> 'a list \<Rightarrow> 'a list" where
  "coll_delete key k xs = filter (\<lambda>x. key x \<noteq> k) xs"

definition cache_get2 :: "(('a \<times> 'b) \<times> 'v) list \<Rightarrow> 'a \<Rightarrow> 'b \<Rightarrow> 'v option" where
  "cache_get2 xs k1 k2 = map_of xs (k1, k2)"

definition cache_get1 :: "(('a \<times> 'b) \<times> 'v) list \<Rightarrow> 'a \<Rightarrow> ('b \<times> 'v) list" where
  "cache_get1 xs k1 = map (\<lambda>e. (snd (fst e), snd e)) (filter (\<lambda>e. fst (fst e) = k1) xs)"

definition cache_delete1 :: "'a \<Rightarrow> (('a \<times> 'b) \<times> 'v) list \<Rightarrow> (('a \<times> 'b) \<times> 'v) list" where
  "cache_delete1 k1 xs = filter (\<lambda>e. fst (fst e) \<noteq> k1) xs"

definition cache_delete2 :: "'a \<Rightarrow> 'b \<Rightarrow> (('a \<times> 'b) \<times> 'v) list \<Rightarrow> (('a \<times> 'b) \<times> 'v) list" where
  "cache_delete2 k1 k2 xs = AList.delete (k1, k2) xs"

text \<open>
  The client context: one store per entity kind, each with its enabled flag, the message
  cache mode, and the local user.
\<close>

record shard_client =
  guilds_enabled :: bool
  guilds :: "guild list"
  members_enabled :: bool
  members :: "((snowflake \<times> snowflake) \<times> member) list"
  users_enabled :: bool
  users :: "user list"
  channels_enabled :: bool
  channels :: "channel list"
  messages_enabled :: bool
  messages_type :: MessageCacheTypes
  messages :: "((snowflake \<times> snowflake) \<times> message) list"
  presences_enabled :: bool
  presences :: "presence list"
  voiceStates_enabled :: bool
  voiceStates :: "((snowflake option \<times> snowflake) \<times> voice_state) list"
  typings :: "(snowflake \<times> snowflake) list"
  relationships :: "snowflake list"
  client_user :: "user option"

text \<open>
  Modelled from the spec: the operations of the guild, user and member stores (the store
  classes are not part of the sources). \<open>members_of\<close> is \<open>members.get(guildId)\<close>, the
  collection under an outer key; a member is inserted under its guild id and its user's
  id.
\<close>

definition guilds_has :: "shard_client \<Rightarrow> snowflake \<Rightarrow> bool" where
  "guilds_has c g = (guilds_enabled c \<and> coll_has guild_id (guilds c) g)"

definition guilds_get :: "shard_client \<Rightarrow> snowflake \<Rightarrow> guild option" where
  "guilds_get c g = (if guilds_enabled c then coll_get guild_id (guilds c) g else None)"

definition guilds_insert :: "guild \<Rightarrow> shard_client \<Rightarrow> shard_client" where
  "guilds_insert g c = (if guilds_enabled c then c\<lparr>guilds := coll_set guild_id g (guilds c)\<rparr> else c)"

definition guilds_delete :: "snowflake \<Rightarrow> shard_client \<Rightarrow> shard_client" where
  "guilds_delete g c = c\<lparr>guilds := coll_delete guild_id g (guilds c)\<rparr>"

definition users_has :: "shard_client \<Rightarrow> snowflake \<Rightarrow> bool" where
  "users_has c u = (users_enabled c \<and> coll_has user_id (users c) u)"

definition users_get :: "shard_client \<Rightarrow> snowflake \<Rightarrow> user option" where
  "users_get c u = (if users_enabled c then coll_get user_id (users c) u else None)"

definition users_insert :: "user \<Rightarrow> shard_client \<Rightarrow> shard_client" where
  "users_insert u c = (if users_enabled c then c\<lparr>users := coll_set user_id u (users c)\<rparr> else c)"

definition members_has :: "shard_client \<Rightarrow> snowflake \<Rightarrow> snowflake \<Rightarrow> bool" where
  "members_has c g u = (members_enabled c \<and> cache_get2 (members c) g u \<noteq> None)"

definition members_get :: "shard_client \<Rightarrow> snowflake \<Rightarrow> snowflake \<Rightarrow> member option" where
  "members_get c g u = (if members_enabled c then cache_get2 (members c) g u else None)"

definition members_of :: "shard_client \<Rightarrow> snowflake \<Rightarrow> (snowflake \<times> member) list" where
  "members_of c g = (if members_enabled c then cache_get1 (members c) g else [])"

definition member_id :: "member \<Rightarrow> snowflake" where
  "member_id m = user_id (member_user m)"

definition members_insert :: "member \<Rightarrow> shard_client \<Rightarrow> shard_client" where
  "members_insert m c =
     (if members_enabled c
      then c\<lparr>members := AList.update (guildId m, member_id m) m (members c)\<rparr>
      else c)"

section \<open>The Member structure\<close>

text \<open>
  Modelled from the spec: \<open>Guild.defaultRole\<close> is not part of the sources; it is the role
  of the guild's role collection whose id is the guild's id, or null.
\<close>

definition defaultRole :: "guild \<Rightarrow> role option" where
  "defaultRole g = coll_get role_id (guild_roles g) (guild_id g)"

definition member_guild :: "shard_client \<Rightarrow> member \<Rightarrow> guild option" where
  "member_guild c m = guilds_get c (guildId m)"

text \<open>
  The \<open>roles\<close> accessor: the explicit collection when there is one, and otherwise a fresh
  collection holding the default role (or null) under the guild id.
\<close>

definition roles :: "shard_client \<Rightarrow> member \<Rightarrow> (snowflake \<times> role option) list" where
  "roles c m =
     (case priv_roles m of
        Some collection \<Rightarrow> collection
      | None \<Rightarrow>
          [(guildId m, (case member_guild c m of Some g \<Rightarrow> defaultRole g | None \<Rightarrow> None))])"

text \<open>\<open>mergeValue\<close> for the key \<open>roles\<close>, given the list of role ids.\<close>

definition mergeValue_roles :: "shard_client \<Rightarrow> member \<Rightarrow> snowflake list \<Rightarrow> member" where
  "mergeValue_roles c m value =
     (if value \<noteq> [] then
        (let g = member_guild c m;
             cleared = [];
             with_default = AList.update (guildId m)
               (case g of Some gd \<Rightarrow> defaultRole gd | None \<Rightarrow> None) cleared
         in m\<lparr>priv_roles := Some (fold
               (\<lambda>roleId collection.
                  AList.update roleId
                    (case g of Some gd \<Rightarrow> coll_get role_id (guild_roles gd) roleId | None \<Rightarrow> None)
                    collection)
               value with_default)\<rparr>)
      else m\<lparr>priv_roles := None\<rparr>)"

text \<open>
  \<open>mergeValue\<close> for the key \<open>user\<close>: the user of the store is merged, or a new user is
  made and inserted; the member then refers to it.
\<close>

definition mergeValue_user :: "shard_client \<Rightarrow> member \<Rightarrow> raw_user \<Rightarrow> member \<times> shard_client" where
  "mergeValue_user c m value =
     (case users_get c (raw_user_id value) of
        Some u \<Rightarrow>
          (let u' = User_merge u value
           in (m\<lparr>member_user := u'\<rparr>, c\<lparr>users := coll_set user_id u' (users c)\<rparr>))
      | None \<Rightarrow>
          (let u = User_new value in (m\<lparr>member_user := u\<rparr>, users_insert u c)))"

text \<open>
  Merging a payload into a member: the key \<open>guild_id\<close> first (it is the member's
  \<open>_keysMerge\<close>), then every other key of the member's key set that the payload defines.
\<close>

definition Member_merge :: "shard_client \<Rightarrow> member \<Rightarrow> raw_member \<Rightarrow> member \<times> shard_client" where
  "Member_merge c m data =
     (let m1 = m\<lparr>guildId := raw_guild_id data\<rparr>;
          m2 = (case raw_deaf data of None \<Rightarrow> m1 | Some v \<Rightarrow> m1\<lparr>deaf := v\<rparr>);
          m3 = (case raw_hoisted_role data of None \<Rightarrow> m2 | Some v \<Rightarrow> m2\<lparr>hoistedRoleId := v\<rparr>);
          m4 = (case raw_joined_at data of None \<Rightarrow> m3
                | Some v \<Rightarrow> m3\<lparr>joinedAtUnix := (case v of None \<Rightarrow> 0 | Some t \<Rightarrow> t)\<rparr>);
          m5 = (case raw_mute data of None \<Rightarrow> m4 | Some v \<Rightarrow> m4\<lparr>mute := v\<rparr>);
          m6 = (case raw_nick data of None \<Rightarrow> m5 | Some v \<Rightarrow> m5\<lparr>nick := v\<rparr>);
          m7 = (case raw_premium_since data of None \<Rightarrow> m6
                | Some v \<Rightarrow> m6\<lparr>premiumSinceUnix := (case v of None \<Rightarrow> 0 | Some t \<Rightarrow> t)\<rparr>);
          m8 = (case raw_roles data of None \<Rightarrow> m7 | Some v \<Rightarrow> mergeValue_roles c m7 v)
      in mergeValue_user c m8 (raw_member_user data))"

definition Member_new :: "shard_client \<Rightarrow> raw_member \<Rightarrow> member \<times> shard_client" where
  "Member_new c data =
     Member_merge c
       \<lparr>priv_roles = None, deaf = False, guildId = [], hoistedRoleId = None, joinedAtUnix = 0,
        mute = False, nick = None, premiumSinceUnix = 0,
        member_user = \<lparr>user_id = [], username = [], bot = False\<rparr>\<rparr>
       data"

section \<open>Dispatch handlers on the cache\<close>

text \<open>
  Every handler ends by emitting a notification that carries the entities it touched. The
  notification does not change the cache and is left out of the model; a handler is the
  function from the cache before the event to the cache after it. Where the sources test
  \<open>has(key)\<close> and then read \<open>get(key)\<close>, the model reads once and branches on the result:
  \<open>has\<close> holds exactly when \<open>get\<close> finds an entity. The counter of a guild is incremented
  only when the guild is cached.
\<close>

text \<open>JavaScript's \<open>a || b\<close> on strings that may be absent: the empty string is falsy.\<close>

definition truthy :: "string option \<Rightarrow> bool" where
  "truthy v = (case v of None \<Rightarrow> False | Some s \<Rightarrow> s \<noteq> [])"

definition js_or :: "string option \<Rightarrow> string option \<Rightarrow> string option" where
  "js_or a b = (if truthy a then a else b)"

subsection \<open>GUILD_MEMBER_ADD\<close>

definition guild_memberCount_incr :: "snowflake \<Rightarrow> shard_client \<Rightarrow> shard_client" where
  "guild_memberCount_incr gid c =
     (case guilds_get c gid of
        Some g \<Rightarrow> c\<lparr>guilds := coll_set guild_id (g\<lparr>memberCount := memberCount g + 1\<rparr>) (guilds c)\<rparr>
      | None \<Rightarrow> c)"

definition GUILD_MEMBER_ADD :: "shard_client \<Rightarrow> raw_member \<Rightarrow> shard_client" where
  "GUILD_MEMBER_ADD c data =
     (let gid = raw_guild_id data;
          uid = raw_user_id (raw_member_user data);
          c1 = (case members_get c gid uid of
                  Some m \<Rightarrow>
                    (case Member_merge c m data of
                       (m', c') \<Rightarrow> c'\<lparr>members := AList.update (gid, uid) m' (members c')\<rparr>)
                | None \<Rightarrow>
                    (case Member_new c data of (m, c') \<Rightarrow> members_insert m c'))
      in guild_memberCount_incr gid c1)"

subsection \<open>GUILD_ROLE_DELETE\<close>

text \<open>
  \<open>member.roles.delete(roleId)\<close> goes through the accessor: it removes the role from the
  explicit collection when the member has one, and otherwise from the fresh collection
  the accessor has just made, which is then dropped.
\<close>

definition member_roles_delete :: "snowflake \<Rightarrow> member \<Rightarrow> member" where
  "member_roles_delete roleId m =
     (case priv_roles m of
        Some collection \<Rightarrow> m\<lparr>priv_roles := Some (AList.delete roleId collection)\<rparr>
      | None \<Rightarrow> m)"

definition GUILD_ROLE_DELETE :: "shard_client \<Rightarrow> snowflake \<Rightarrow> snowflake \<Rightarrow> shard_client" where
  "GUILD_ROLE_DELETE c gid roleId =
     (let c1 = (case guilds_get c gid of
                  Some g \<Rightarrow>
                    (if coll_has role_id (guild_roles g) roleId
                     then c\<lparr>guilds := coll_set guild_id
                            (g\<lparr>guild_roles := coll_delete role_id roleId (guild_roles g)\<rparr>) (guilds c)\<rparr>
                     else c)
                | None \<Rightarrow> c)
      in if members_enabled c1
         then c1\<lparr>members := map (\<lambda>e. if fst (fst e) = gid
                                       then (fst e, member_roles_delete roleId (snd e)) else e)
                                (members c1)\<rparr>
         else c1)"

subsection \<open>VOICE_STATE_UPDATE\<close>

text \<open>
  Modelled from the spec: the VoiceState structure and the voice-state store are not part
  of the sources. A voice state is keyed by its server id, which is the guild id or else
  the channel id, and by the user id; merging assigns the fields of the payload.
\<close>

record raw_voice_state =
  vsu_guild_id :: "snowflake option"
  vsu_channel_id :: "snowflake option"
  vsu_user_id :: snowflake

definition VoiceState_merge :: "voice_state \<Rightarrow> raw_voice_state \<Rightarrow> voice_state" where
  "VoiceState_merge v data =
     v\<lparr>vs_guildId := (case vsu_guild_id data of None \<Rightarrow> vs_guildId v | Some g \<Rightarrow> Some g),
       vs_channelId := vsu_channel_id data,
       vs_userId := vsu_user_id data\<rparr>"

definition VoiceState_new :: "raw_voice_state \<Rightarrow> voice_state" where
  "VoiceState_new data =
     VoiceState_merge \<lparr>vs_guildId = None, vs_channelId = None, vs_userId = []\<rparr> data"

definition serverId :: "voice_state \<Rightarrow> snowflake option" where
  "serverId v = js_or (vs_guildId v) (vs_channelId v)"

definition voiceStates_has :: "shard_client \<Rightarrow> snowflake option \<Rightarrow> snowflake \<Rightarrow> bool" where
  "voiceStates_has c s u = (voiceStates_enabled c \<and> cache_get2 (voiceStates c) s u \<noteq> None)"

definition voiceStates_get :: "shard_client \<Rightarrow> snowflake option \<Rightarrow> snowflake \<Rightarrow> voice_state option" where
  "voiceStates_get c s u = (if voiceStates_enabled c then cache_get2 (voiceStates c) s u else None)"

definition voiceStates_insert :: "voice_state \<Rightarrow> shard_client \<Rightarrow> shard_client" where
  "voiceStates_insert v c =
     (if voiceStates_enabled c
      then c\<lparr>voiceStates := AList.update (serverId v, vs_userId v) v (voiceStates c)\<rparr>
      else c)"

text \<open>The handler returns the cache and the \<open>leftChannel\<close> flag of its notification.\<close>

definition VOICE_STATE_UPDATE :: "shard_client \<Rightarrow> raw_voice_state \<Rightarrow> shard_client \<times> bool" where
  "VOICE_STATE_UPDATE c data =
     (let server = js_or (vsu_guild_id data) (vsu_channel_id data) in
      case voiceStates_get c server (vsu_user_id data) of
        Some v \<Rightarrow>
          (let c1 = c\<lparr>voiceStates :=
                       AList.update (server, vsu_user_id data) (VoiceState_merge v data) (voiceStates c)\<rparr>
           in if \<not> truthy (vsu_channel_id data)
              then (c1\<lparr>voiceStates := cache_delete2 server (vsu_user_id data) (voiceStates c1)\<rparr>, True)
              else (c1, False))
      | None \<Rightarrow> (voiceStates_insert (VoiceState_new data) c, False))"

subsection \<open>Reactions\<close>











section \<open>The gateway handler and the member-chunk coordinator\<close>


definition set_delete :: "'a \<Rightarrow> 'a list \<Rightarrow> 'a list" where
  "set_delete x xs = removeAll x xs"

text \<open>
  The coordinator's state \<open>memberChunks\<close>: the delay, the three sets of guild ids and the
  timer, which is either started or not. \<open>requestGuildMembers\<close> of the gateway is the
  outbound primitive; the handler state records the guild ids of every call.
\<close>

record member_chunks =
  chunks_delay :: nat
  chunks_done :: "snowflake list"
  chunks_left :: "snowflake list"
  chunks_sending :: "snowflake list"
  chunks_timer :: bool

record gateway_handler =
  client :: shard_client
  loadAllMembers :: bool
  guildSubscriptions :: bool
  memberChunks :: member_chunks
  requestGuildMembers :: "snowflake list list"


text \<open>
  Modelled from the spec: the payload of a guild and the merge of the Guild structure
  (not part of the sources). The keys modelled are the id, the unavailable flag, the
  member count, the roles and the members; a member of the payload is merged into the
  cached member of that guild and user, or made and inserted. \<open>guild.members\<close> is the
  collection the member store holds under the guild id.
\<close>

record raw_guild =
  rg_id :: snowflake
  rg_unavailable :: "bool option"
  rg_member_count :: "int option"
  rg_roles :: "role list option"
  rg_members :: "raw_member list option"

definition member_upsert :: "raw_member \<Rightarrow> shard_client \<Rightarrow> shard_client" where
  "member_upsert data c =
     (let gid = raw_guild_id data; uid = raw_user_id (raw_member_user data) in
      case members_get c gid uid of
        Some m \<Rightarrow>
          (case Member_merge c m data of
             (m', c') \<Rightarrow> c'\<lparr>members := AList.update (gid, uid) m' (members c')\<rparr>)
      | None \<Rightarrow> (case Member_new c data of (m, c') \<Rightarrow> members_insert m c'))"

definition Guild_merge :: "shard_client \<Rightarrow> guild \<Rightarrow> raw_guild \<Rightarrow> guild \<times> shard_client" where
  "Guild_merge c g data =
     (let g1 = g\<lparr>guild_id := rg_id data\<rparr>;
          g2 = (case rg_member_count data of None \<Rightarrow> g1 | Some n \<Rightarrow> g1\<lparr>memberCount := n\<rparr>);
          g3 = (case rg_roles data of None \<Rightarrow> g2
                | Some rs \<Rightarrow> g2\<lparr>guild_roles := fold (coll_set role_id) rs []\<rparr>);
          g4 = (case rg_unavailable data of None \<Rightarrow> g3 | Some u \<Rightarrow> g3\<lparr>unavailable := u\<rparr>)
      in (g4, (case rg_members data of None \<Rightarrow> c
               | Some ms \<Rightarrow> fold (\<lambda>raw. member_upsert (raw\<lparr>raw_guild_id := rg_id data\<rparr>)) ms c)))"

definition Guild_new :: "shard_client \<Rightarrow> raw_guild \<Rightarrow> guild \<times> shard_client" where
  "Guild_new c data =
     Guild_merge c
       \<lparr>guild_id = [], memberCount = 0, guild_roles = [], unavailable = False,
        premiumSubscriptionCount = 0\<rparr>
       data"


text \<open>
  The guild of an event: merged into the cached guild, or made and inserted. The result
  is the guild, the cache, and whether the guild is new.
\<close>

definition guild_upsert :: "shard_client \<Rightarrow> raw_guild \<Rightarrow> guild \<times> shard_client \<times> bool" where
  "guild_upsert c data =
     (case guilds_get c (rg_id data) of
        Some g0 \<Rightarrow>
          (case Guild_merge c g0 data of
             (g, c') \<Rightarrow> (g, c'\<lparr>guilds := coll_set guild_id g (guilds c')\<rparr>, False))
      | None \<Rightarrow> (case Guild_new c data of (g, c') \<Rightarrow> (g, guilds_insert g c', True)))"

subsection \<open>GUILD_CREATE\<close>



subsection \<open>GUILD_DELETE\<close>

record raw_guild_delete =
  gd_id :: snowflake
  gd_unavailable :: "bool option"

definition raw_guild_of_delete :: "raw_guild_delete \<Rightarrow> raw_guild" where
  "raw_guild_of_delete data =
     \<lparr>rg_id = gd_id data, rg_unavailable = gd_unavailable data, rg_member_count = None,
      rg_roles = None, rg_members = None\<rparr>"

text \<open>
  Modelled from the spec: \<open>presences.clearGuildId\<close> detaches the guild from every presence
  and evicts a presence that is left with no guild.
\<close>

definition presences_clearGuildId :: "snowflake \<Rightarrow> shard_client \<Rightarrow> shard_client" where
  "presences_clearGuildId gid c =
     c\<lparr>presences :=
         map (\<lambda>p. p\<lparr>guildIds := removeAll gid (guildIds p)\<rparr>)
           (filter (\<lambda>p. \<not> (gid \<in> set (guildIds p) \<and> removeAll gid (guildIds p) = []))
              (presences c))\<rparr>"

text \<open>
  One round of the loop over the channels: a channel of the guild is removed from the
  channel store together with the messages cached under its id and its typing
  indicators. (Its overwrites are cleared on the channel object, which leaves the store.)
\<close>

definition sweep_channel :: "snowflake \<Rightarrow> channel \<Rightarrow> shard_client \<Rightarrow> shard_client" where
  "sweep_channel gid ch c =
     (if channel_guildId ch = Some gid
      then c\<lparr>channels := coll_delete channel_id (channel_id ch) (channels c),
             messages := cache_delete1 (channel_id ch) (messages c),
             typings := filter (\<lambda>t. fst t \<noteq> channel_id ch) (typings c)\<rparr>
      else c)"

definition sweep_user_message ::
  "snowflake \<Rightarrow> (snowflake \<times> snowflake) \<times> message \<Rightarrow> shard_client \<Rightarrow> shard_client" where
  "sweep_user_message gid e c =
     (if message_guildId (snd e) = Some gid
      then c\<lparr>messages := cache_delete2 (author_id (snd e)) (snd (fst e)) (messages c)\<rparr>
      else c)"

definition guild_sweep :: "snowflake \<Rightarrow> shard_client \<Rightarrow> shard_client" where
  "guild_sweep gid c =
     (let c1 = fold (sweep_channel gid) (if channels_enabled c then channels c else []) c;
          c2 = c1\<lparr>members := cache_delete1 gid (members c1)\<rparr>;
          c3 = c2\<lparr>messages := cache_delete1 gid (messages c2)\<rparr>;
          c4 = presences_clearGuildId gid c3;
          c5 = c4\<lparr>voiceStates := cache_delete1 (Some gid) (voiceStates c4)\<rparr>
      in if messages_type c5 = USER
         then fold (sweep_user_message gid) (if messages_enabled c5 then messages c5 else []) c5
         else c5)"

definition GUILD_DELETE :: "gateway_handler \<Rightarrow> raw_guild_delete \<Rightarrow> gateway_handler" where
  "GUILD_DELETE h data =
     (let gid = gd_id data;
          isUnavailable = (gd_unavailable data = Some True);
          mc = (memberChunks h)\<lparr>chunks_done := set_delete gid (chunks_done (memberChunks h)),
                                chunks_sending := set_delete gid (chunks_sending (memberChunks h))\<rparr>
      in case guild_upsert (client h) (raw_guild_of_delete data) of
           (g, c1, isNew) \<Rightarrow>
             (let c2 = (if \<not> isNew \<or> \<not> guilds_enabled c1 then guild_sweep gid c1 else c1);
                  c3 = (if \<not> isUnavailable then guilds_delete gid c2 else c2)
              in h\<lparr>client := c3, memberChunks := mc\<rparr>))"

subsection \<open>READY: the reset and the guilds of the snapshot\<close>





section \<open>Cluster processes and the evaluate protocol\<close>

subsection \<open>Envelopes\<close>

text \<open>
  The values that cross the inter-process channel. An error of remote code travels as
  data (message, name, stack). The evaluate payload has the code and the nonce, and
  optionally a result, an error, the ignored marker and the results of a broadcast;
  \<open>None\<close> is an absent key. The first component of the pair an evaluate call resolves to
  is a returned value, the data of a remote error, or an Error object made locally.
\<close>

datatype js_value = JUndefined | JNull | JBool bool | JNumber int | JString string

record ipc_error =
  error_message :: string
  error_name :: string
  error_stack :: string

datatype eval_any = Value js_value | ErrorData ipc_error | Error string

type_synonym eval_outcome = "(eval_any \<times> bool) option"

record eval_data =
  ev_code :: string
  ev_nonce :: string
  ev_result :: "js_value option"
  ev_error :: "ipc_error option"
  ev_ignored :: "bool option"
  ev_results :: "eval_outcome list option"

datatype ClusterIPCOpCodes = OP_READY | OP_CLOSE | OP_RECONNECTING | OP_RESPAWN_ALL | OP_EVAL

datatype ipc_payload = NoData | EvalData eval_data | CloseData int string

record ipc_message =
  msg_op :: ClusterIPCOpCodes
  msg_data :: ipc_payload
  msg_request :: bool
  msg_shard :: "int option"

text \<open>What arrives on the channel is an envelope or something that is not an object.\<close>

datatype received = NotAnObject | Envelope ipc_message

definition sendIPC :: "ClusterIPCOpCodes \<Rightarrow> ipc_payload \<Rightarrow> bool \<Rightarrow> int option \<Rightarrow> ipc_message" where
  "sendIPC opc d req sh = \<lparr>msg_op = opc, msg_data = d, msg_request = req, msg_shard = sh\<rparr>"

subsection \<open>The worker's side: ClusterProcessChild\<close>

text \<open>
  The worker owns the shards of its cluster client; \<open>_eval\<close> of the cluster client is not
  part of the sources and is a parameter: it returns a value or throws an error. The
  state records the envelopes sent to the parent and the code handed to \<open>_eval\<close>. Sending
  is taken to succeed.
\<close>

record cluster_process_child =
  shards :: "int list"
  sent_to_parent :: "ipc_message list"
  evaluated :: "string list"

definition child_send :: "ipc_message \<Rightarrow> cluster_process_child \<Rightarrow> cluster_process_child" where
  "child_send m w = w\<lparr>sent_to_parent := sent_to_parent w @ [m]\<rparr>"

definition child_onMessage ::
  "(string \<Rightarrow> ipc_error + js_value) \<Rightarrow> cluster_process_child \<Rightarrow> received \<Rightarrow> cluster_process_child" where
  "child_onMessage eval_fn w message =
     (case message of
        NotAnObject \<Rightarrow> w
      | Envelope m \<Rightarrow>
          (case msg_op m of
             OP_EVAL \<Rightarrow>
               (if msg_request m then
                  (case msg_data m of
                     EvalData d \<Rightarrow>
                       (if (case msg_shard m of Some sh \<Rightarrow> sh \<notin> set (shards w) | None \<Rightarrow> False) then
                          child_send (sendIPC OP_EVAL (EvalData (d\<lparr>ev_ignored := Some True\<rparr>)) False None) w
                        else
                          (let w1 = w\<lparr>evaluated := evaluated w @ [ev_code d]\<rparr> in
                           case eval_fn (ev_code d) of
                             Inr res \<Rightarrow>
                               child_send (sendIPC OP_EVAL (EvalData (d\<lparr>ev_result := Some res\<rparr>)) False None) w1
                           | Inl err \<Rightarrow>
                               child_send (sendIPC OP_EVAL (EvalData (d\<lparr>ev_error := Some err\<rparr>)) False None) w1))
                   | _ \<Rightarrow> w)
                else w)
           | _ \<Rightarrow> w))"

subsection \<open>The supervisor's side: ClusterProcess\<close>

text \<open>
  Promises are numbered; the state of promise \<open>p\<close> is the \<open>p\<close>-th entry of the list. A
  promise settles once: resolving or rejecting a settled promise changes nothing.
  \<open>thens\<close> holds the pairs (inner, outer) registered by
  \<open>promise.then(resolve).catch(reject)\<close>: when the inner promise settles, the outer one
  settles the same way, unless it is settled already. \<open>process\<close> is the current child, or
  null; \<open>exited\<close> holds the children that have exited, each with the listeners that are
  still on it.
\<close>

datatype promise_state = Pending | Resolved eval_outcome | Rejected string

record child_process =
  pid :: nat
  listeners :: "(string \<times> nat) list"
  sent :: "ipc_message list"

record eval_waiting =
  promise :: nat
  resolve :: nat
  reject :: nat

record cluster_process =
  process :: "child_process option"
  exited :: "child_process list"
  evalsWaiting :: "(string \<times> eval_waiting) list"
  promises :: "promise_state list"
  thens :: "(nat \<times> nat) list"
  respawn :: bool
  next_pid :: nat

definition settle :: "nat \<Rightarrow> promise_state \<Rightarrow> promise_state list \<Rightarrow> promise_state list" where
  "settle p st ps = (if p < length ps \<and> ps ! p = Pending then ps[p := st] else ps)"

definition settle_chain :: "(nat \<times> nat) list \<Rightarrow> nat \<Rightarrow> promise_state \<Rightarrow> promise_state list \<Rightarrow> promise_state list" where
  "settle_chain ts p st ps =
     (if p < length ps \<and> ps ! p = Pending
      then fold (\<lambda>t qs. if fst t = p then settle (snd t) st qs else qs) ts (ps[p := st])
      else ps)"

text \<open>The code of an evaluate call is a string, or a function that is sent as its source text.\<close>

datatype eval_code = CodeString string | CodeFunction string

definition code_text :: "eval_code \<Rightarrow> string" where
  "code_text c = (case c of CodeString s \<Rightarrow> s | CodeFunction src \<Rightarrow> ''('' @ src @ '')(this)'')"

text \<open>The request that \<open>eval\<close> sends: the code and the nonce, marked as a request, with no shard.\<close>

definition eval_payload :: "eval_code \<Rightarrow> string \<Rightarrow> eval_data" where
  "eval_payload c nonce =
     \<lparr>ev_code = code_text c, ev_nonce = nonce, ev_result = None, ev_error = None,
      ev_ignored = None, ev_results = None\<rparr>"

definition eval_request :: "eval_code \<Rightarrow> string \<Rightarrow> ipc_message" where
  "eval_request c nonce = sendIPC OP_EVAL (EvalData (eval_payload c nonce)) True None"

text \<open>
  \<open>eval\<close>: without a child the call throws. With the nonce already waiting, the call returns
  the promise of the waiting entry. Otherwise it makes the outer promise (the one it
  returns) and the inner promise, adds the listener for the nonce to the child, sends the
  request, registers the entry and chains the outer promise to the inner one.
\<close>

definition eval :: "cluster_process \<Rightarrow> eval_code \<Rightarrow> string \<Rightarrow> (string + nat) \<times> cluster_process" where
  "eval s c nonce =
     (case process s of
        None \<Rightarrow> (Inl ''Cannot eval without a child!'', s)
      | Some child \<Rightarrow>
          (case map_of (evalsWaiting s) nonce of
             Some w \<Rightarrow> (Inr (promise w), s)
           | None \<Rightarrow>
               (let outer = length (promises s);
                    inner = Suc outer;
                    child1 = child\<lparr>listeners := listeners child @ [(nonce, inner)],
                                   sent := sent child @ [eval_request c nonce]\<rparr>
                in (Inr outer,
                    s\<lparr>process := Some child1,
                      promises := promises s @ [Pending, Pending],
                      evalsWaiting := AList.update nonce
                        \<lparr>promise = inner, resolve = outer, reject = outer\<rparr> (evalsWaiting s),
                      thens := thens s @ [(inner, outer)]\<rparr>))))"

text \<open>The value the listener resolves the inner promise to, from the payload of the reply.\<close>

definition reply_outcome :: "eval_data \<Rightarrow> eval_outcome" where
  "reply_outcome d =
     (if ev_ignored d = Some True then None
      else (case ev_error d of
              Some e \<Rightarrow> Some (ErrorData e, True)
            | None \<Rightarrow> Some (Value (case ev_result d of Some v \<Rightarrow> v | None \<Rightarrow> JUndefined), False)))"

text \<open>
  \<open>child.removeListener\<close>, for the child that the listener was added to: a listener is on
  one child only (its promise is its own), so it is removed wherever it is, on the current
  child or on one that has exited.
\<close>

definition removeListener :: "string \<times> nat \<Rightarrow> cluster_process \<Rightarrow> cluster_process" where
  "removeListener l s =
     s\<lparr>process := (case process s of
                     Some child \<Rightarrow> Some (child\<lparr>listeners := remove1 l (listeners child)\<rparr>)
                   | None \<Rightarrow> None),
       exited := map (\<lambda>child. child\<lparr>listeners := remove1 l (listeners child)\<rparr>) (exited s)\<rparr>"

text \<open>The listener that \<open>eval\<close> adds for a nonce and its inner promise.\<close>

definition listener :: "string \<Rightarrow> nat \<Rightarrow> ipc_message \<Rightarrow> cluster_process \<Rightarrow> cluster_process" where
  "listener nonce res m s =
     (case msg_op m of
        OP_EVAL \<Rightarrow>
          (case msg_data m of
             EvalData d \<Rightarrow>
               (if ev_nonce d = nonce then
                  (let s1 = removeListener (nonce, res) s;
                       s2 = s1\<lparr>evalsWaiting := AList.delete nonce (evalsWaiting s1)\<rparr>
                   in s2\<lparr>promises := settle_chain (thens s2) res (Resolved (reply_outcome d)) (promises s2)\<rparr>)
                else s)
           | _ \<Rightarrow> s)
      | _ \<Rightarrow> s)"

text \<open>
  An envelope from the current child reaches every listener that is on the child when it
  arrives, in the order in which they were added. An envelope that still arrives from a
  child that has exited reaches the listeners that are on that child: \<open>onExit\<close> does not
  remove them.
\<close>

definition child_message :: "ipc_message \<Rightarrow> cluster_process \<Rightarrow> cluster_process" where
  "child_message m s =
     (case process s of
        None \<Rightarrow> s
      | Some child \<Rightarrow> fold (\<lambda>l. listener (fst l) (snd l) m) (listeners child) s)"

definition exited_child_message :: "nat \<Rightarrow> ipc_message \<Rightarrow> cluster_process \<Rightarrow> cluster_process" where
  "exited_child_message p m s =
     fold (\<lambda>l. listener (fst l) (snd l) m)
       (concat (map listeners (filter (\<lambda>child. pid child = p) (exited s)))) s"

text \<open>
  The failure of the send of \<open>eval\<close>, reported later by the channel: the listener is
  removed and the inner promise is rejected.
\<close>

definition eval_send_failed :: "string \<Rightarrow> nat \<Rightarrow> string \<Rightarrow> cluster_process \<Rightarrow> cluster_process" where
  "eval_send_failed nonce res err s =
     (let s1 = removeListener (nonce, res) s
      in s1\<lparr>promises := settle_chain (thens s1) res (Rejected err) (promises s1)\<rparr>)"

text \<open>Decimal text of a number, as a template string renders it.\<close>

definition digit_of :: "nat \<Rightarrow> char" where
  "digit_of d = ''0123456789'' ! d"

fun number_text :: "nat \<Rightarrow> string" where
  "number_text n =
     (if 10 \<le> n then number_text (n div 10) @ [digit_of (n mod 10)] else [digit_of n])"

definition template_number :: "int \<Rightarrow> string" where
  "template_number i =
     (if 0 \<le> i then number_text (nat i) else CHR ''-'' # number_text (nat (- i)))"

definition closed_message :: "int \<Rightarrow> string \<Rightarrow> string" where
  "closed_message c signal =
     ''Process has closed with '' @ [CHR 0x27] @ template_number c @ [CHR 0x27] @ '' code and ''
       @ [CHR 0x27] @ signal @ [CHR 0x27] @ '' signal.''"

text \<open>
  \<open>run\<close> forks a child unless there is one. Waiting for the child's readiness, and the
  timeout of that wait, are outside the model.
\<close>

definition run :: "cluster_process \<Rightarrow> cluster_process" where
  "run s =
     (case process s of
        Some child \<Rightarrow> s
      | None \<Rightarrow> s\<lparr>process := Some \<lparr>pid = next_pid s, listeners = [], sent = []\<rparr>,
                  next_pid := Suc (next_pid s)\<rparr>)"

text \<open>
  \<open>onExit\<close>: the child is no longer the process, and keeps its listeners; every waiting
  entry has its \<open>resolve\<close> called with the pair of the error and true, and is deleted;
  then the process is run again when the manager respawns.
\<close>

definition exit_entry :: "int \<Rightarrow> string \<Rightarrow> string \<times> eval_waiting \<Rightarrow> cluster_process \<Rightarrow> cluster_process" where
  "exit_entry c signal entry s =
     s\<lparr>promises := settle (resolve (snd entry))
                      (Resolved (Some (Error (closed_message c signal), True))) (promises s),
       evalsWaiting := AList.delete (fst entry) (evalsWaiting s)\<rparr>"

definition onExit :: "int \<Rightarrow> string \<Rightarrow> cluster_process \<Rightarrow> cluster_process" where
  "onExit c signal s =
     (let s1 = s\<lparr>process := None,
                 exited := (case process s of
                              Some child \<Rightarrow> exited s @ [child]
                            | None \<Rightarrow> exited s)\<rparr>;
          s2 = fold (exit_entry c signal) (evalsWaiting s1) s1
      in if respawn s2 then run s2 else s2)"

section \<open>Invariants\<close>


text \<open>
  Well-formed promise references: every listener on the child and every chained pair
  refers to promises that exist. The state of a process that has not been used is
  well-formed, and every operation keeps a state well-formed (lemmas \<open>promises_wf_*\<close>).
\<close>

definition promises_wf :: "cluster_process \<Rightarrow> bool" where
  "promises_wf s =
     (list_all (\<lambda>l. snd l < length (promises s))
        (case process s of Some child \<Rightarrow> listeners child | None \<Rightarrow> [])
      \<and> list_all (\<lambda>t. fst t < length (promises s) \<and> snd t < length (promises s)) (thens s))"

section \<open>Example states\<close>

text \<open>
  A small cache used to evaluate the handlers on concrete events: the guild \<open>g1\<close> with its
  default role and the role \<open>r1\<close>, the user \<open>u1\<close> who is a member of \<open>g1\<close> with no explicit
  role list, and the payload of a member for the user \<open>u2\<close>.
\<close>

definition ex_everyone :: role where
  "ex_everyone = \<lparr>role_id = ''g1'', role_guildId = ''g1'', permissions = 0, color = 0,
                  position = 0, hoist = False\<rparr>"

definition ex_role1 :: role where
  "ex_role1 = \<lparr>role_id = ''r1'', role_guildId = ''g1'', permissions = 8, color = 255,
               position = 1, hoist = False\<rparr>"

definition ex_guild :: guild where
  "ex_guild = \<lparr>guild_id = ''g1'', memberCount = 5, guild_roles = [ex_everyone, ex_role1],
               unavailable = False, premiumSubscriptionCount = 0\<rparr>"

definition ex_user :: user where
  "ex_user = \<lparr>user_id = ''u1'', username = ''one'', bot = False\<rparr>"

definition ex_member :: member where
  "ex_member = \<lparr>priv_roles = None, deaf = False, guildId = ''g1'', hoistedRoleId = None,
                joinedAtUnix = 0, mute = False, nick = None, premiumSinceUnix = 0,
                member_user = ex_user\<rparr>"

definition ex_member_r1 :: member where
  "ex_member_r1 =
     ex_member\<lparr>priv_roles := Some [(''g1'', Some ex_everyone), (''r1'', Some ex_role1)]\<rparr>"

definition ex_message :: message where
  "ex_message =
     \<lparr>message_id = ''m1'', message_channelId = ''c1'', message_guildId = Some ''g1'',
      author_id = ''u1'', priv_reactions = None\<rparr>"

definition ex_client :: shard_client where
  "ex_client =
     \<lparr>guilds_enabled = True, guilds = [ex_guild],
      members_enabled = True, members = [((''g1'', ''u1''), ex_member)],
      users_enabled = True, users = [ex_user],
      channels_enabled = True,
      channels = [\<lparr>channel_id = ''c1'', channel_guildId = Some ''g1'', recipients = []\<rparr>,
                  \<lparr>channel_id = ''d1'', channel_guildId = None, recipients = [''u1'']\<rparr>],
      messages_enabled = True, messages_type = GUILD,
      messages = [((''g1'', ''m1''), ex_message)],
      presences_enabled = True,
      presences = [\<lparr>presence_user_id = ''u1'', status = ''online'', guildIds = [''g1'']\<rparr>],
      voiceStates_enabled = True,
      voiceStates = [((Some ''g1'', ''u1''),
                      \<lparr>vs_guildId = Some ''g1'', vs_channelId = Some ''c2'', vs_userId = ''u1''\<rparr>)],
      typings = [(''c1'', ''u1'')],
      relationships = [],
      client_user = None\<rparr>"

definition ex_raw_member :: raw_member where
  "ex_raw_member =
     \<lparr>raw_guild_id = ''g1'',
      raw_member_user = \<lparr>raw_user_id = ''u2'', raw_username = Some ''two'', raw_bot = None\<rparr>,
      raw_roles = Some [''r1''], raw_nick = None, raw_deaf = None, raw_mute = None,
      raw_joined_at = None, raw_premium_since = None, raw_hoisted_role = None\<rparr>"

definition ex_voice_leave :: raw_voice_state where
  "ex_voice_leave = \<lparr>vsu_guild_id = Some ''g1'', vsu_channel_id = None, vsu_user_id = ''u1''\<rparr>"




definition ex_handler_done :: gateway_handler where
  "ex_handler_done =
     \<lparr>client = ex_client, loadAllMembers = True, guildSubscriptions = True,
      memberChunks = \<lparr>chunks_delay = 2000, chunks_done = [''g1''], chunks_left = [],
                      chunks_sending = [], chunks_timer = False\<rparr>,
      requestGuildMembers = [[''g1'']]\<rparr>"



text \<open>A process with a child and nothing waiting, and a worker that owns the shards 0 and 1.\<close>

definition ex_process :: cluster_process where
  "ex_process =
     \<lparr>process = Some \<lparr>pid = 1, listeners = [], sent = []\<rparr>, exited = [], evalsWaiting = [],
      promises = [],
      thens = [], respawn = False, next_pid = 2\<rparr>"

definition ex_worker :: cluster_process_child where
  "ex_worker = \<lparr>shards = [0, 1], sent_to_parent = [], evaluated = []\<rparr>"

definition ex_eval_fn :: "string \<Rightarrow> ipc_error + js_value" where
  "ex_eval_fn code_str = (if code_str = ''null'' then Inr JNull else Inr (JNumber 2))"

section \<open>Properties of the model\<close>

subsection \<open>Collections and the merge of a member\<close>

lemma find_app: "find P (xs @ ys) = (case find P xs of None \<Rightarrow> find P ys | Some x \<Rightarrow> Some x)"
  by (induction xs) auto

lemma coll_get_key: "coll_get key xs k = Some x \<Longrightarrow> key x = k"
  unfolding coll_get_def by (induction xs) (auto split: if_splits)

lemma coll_get_coll_set_same: "coll_get key (coll_set key x xs) (key x) = Some x"
proof (cases "coll_has key xs (key x)")
  case False
  then show ?thesis by (simp add: coll_set_def coll_has_def coll_get_def find_app)
next
  case True
  have "find (\<lambda>y. key y = key x) zs \<noteq> None \<Longrightarrow>
        find (\<lambda>y. key y = key x) (map (\<lambda>y. if key y = key x then x else y) zs) = Some x" for zs
    by (induction zs) auto
  with True show ?thesis by (simp add: coll_set_def coll_has_def coll_get_def)
qed

lemma guilds_get_id: "guilds_get c g = Some gd \<Longrightarrow> guild_id gd = g"
  unfolding guilds_get_def by (auto split: if_splits dest: coll_get_key)



lemma mergeValue_user_client: "\<exists>us. snd (mergeValue_user c m v) = c\<lparr>users := us\<rparr>"
proof (cases "users_get c (raw_user_id v)")
  case None
  show ?thesis
  proof (cases "users_enabled c")
    case True
    with None show ?thesis by (auto simp: mergeValue_user_def users_insert_def Let_def)
  next
    case False
    with None have "snd (mergeValue_user c m v) = c\<lparr>users := users c\<rparr>"
      by (simp add: mergeValue_user_def users_insert_def Let_def)
    then show ?thesis by blast
  qed
next
  case (Some u)
  then show ?thesis by (auto simp: mergeValue_user_def Let_def)
qed

lemma mergeValue_user_guildId: "guildId (fst (mergeValue_user c m v)) = guildId m"
  by (auto simp: mergeValue_user_def Let_def split: option.splits)

lemma mergeValue_user_id: "member_id (fst (mergeValue_user c m v)) = raw_user_id v"
  by (auto simp: mergeValue_user_def Let_def User_merge_def User_new_def member_id_def
           split: option.splits)

lemma mergeValue_roles_guildId: "guildId (mergeValue_roles c m v) = guildId m"
  by (simp add: mergeValue_roles_def Let_def)

lemma Member_merge_client: "\<exists>us. snd (Member_merge c m data) = c\<lparr>users := us\<rparr>"
  unfolding Member_merge_def Let_def by (rule mergeValue_user_client)

lemma Member_merge_guildId: "guildId (fst (Member_merge c m data)) = raw_guild_id data"
  unfolding Member_merge_def Let_def mergeValue_user_guildId
  by (simp add: mergeValue_roles_guildId split: option.splits)

lemma Member_merge_id:
  "member_id (fst (Member_merge c m data)) = raw_user_id (raw_member_user data)"
  unfolding Member_merge_def Let_def by (rule mergeValue_user_id)

lemma Member_new_client: "\<exists>us. snd (Member_new c data) = c\<lparr>users := us\<rparr>"
  unfolding Member_new_def by (rule Member_merge_client)

text \<open>
  The member of an event ends up under the key made of the payload's guild id and user
  id when the member store is enabled; apart from that only the user store changes.
\<close>

lemma member_upsert_form:
  "\<exists>us m. member_upsert data c
     = (if members_enabled c
        then c\<lparr>users := us,
               members := AList.update (raw_guild_id data, raw_user_id (raw_member_user data)) m
                            (members c)\<rparr>
        else c\<lparr>users := us\<rparr>)"
proof (cases "members_get c (raw_guild_id data) (raw_user_id (raw_member_user data))")
  case None
  obtain us where us: "snd (Member_new c data) = c\<lparr>users := us\<rparr>"
    using Member_new_client by blast
  obtain m c' where mc: "Member_new c data = (m, c')" by (cases "Member_new c data")
  have "guildId (fst (Member_new c data)) = raw_guild_id data"
       "member_id (fst (Member_new c data)) = raw_user_id (raw_member_user data)"
    unfolding Member_new_def by (rule Member_merge_guildId, rule Member_merge_id)
  then have k: "guildId m = raw_guild_id data" "member_id m = raw_user_id (raw_member_user data)"
    using mc by simp_all
  show ?thesis using None us mc k
    by (auto simp: member_upsert_def Let_def members_insert_def)
next
  case (Some m0)
  then have en: "members_enabled c" by (auto simp: members_get_def split: if_splits)
  obtain us where us: "snd (Member_merge c m0 data) = c\<lparr>users := us\<rparr>"
    using Member_merge_client by blast
  obtain m c' where mc: "Member_merge c m0 data = (m, c')" by (cases "Member_merge c m0 data")
  show ?thesis using Some us mc en
    by (auto simp: member_upsert_def Let_def)
qed

lemma GUILD_MEMBER_ADD_upsert:
  "GUILD_MEMBER_ADD c data = guild_memberCount_incr (raw_guild_id data) (member_upsert data c)"
  by (simp add: GUILD_MEMBER_ADD_def member_upsert_def Let_def)

lemma guild_memberCount_incr_get:
  assumes "guilds_get c gid = Some g"
  shows "guilds_get (guild_memberCount_incr gid c) gid = Some (g\<lparr>memberCount := memberCount g + 1\<rparr>)"
proof -
  have id: "guild_id g = gid" using assms by (rule guilds_get_id)
  have en: "guilds_enabled c" using assms by (auto simp: guilds_get_def split: if_splits)
  have "coll_get guild_id (coll_set guild_id (g\<lparr>memberCount := memberCount g + 1\<rparr>) (guilds c))
          (guild_id (g\<lparr>memberCount := memberCount g + 1\<rparr>))
        = Some (g\<lparr>memberCount := memberCount g + 1\<rparr>)"
    by (rule coll_get_coll_set_same)
  then show ?thesis using assms id en
    by (simp add: guild_memberCount_incr_def guilds_get_def)
qed

lemma guild_memberCount_incr_members:
  "members (guild_memberCount_incr gid c) = members c
   \<and> members_enabled (guild_memberCount_incr gid c) = members_enabled c"
  by (simp add: guild_memberCount_incr_def split: option.splits)

lemma GUILD_MEMBER_ADD_guild:
  assumes "guilds_get c (raw_guild_id data) = Some g"
  shows "guilds_get (GUILD_MEMBER_ADD c data) (raw_guild_id data)
           = Some (g\<lparr>memberCount := memberCount g + 1\<rparr>)"
proof -
  obtain us m where f: "member_upsert data c
     = (if members_enabled c
        then c\<lparr>users := us,
               members := AList.update (raw_guild_id data, raw_user_id (raw_member_user data)) m
                            (members c)\<rparr>
        else c\<lparr>users := us\<rparr>)"
    using member_upsert_form by blast
  have g1: "guilds_get (member_upsert data c) (raw_guild_id data) = Some g"
    using assms f by (auto simp: guilds_get_def split: if_splits)
  show ?thesis
    unfolding GUILD_MEMBER_ADD_upsert using g1 by (rule guild_memberCount_incr_get)
qed

lemma GUILD_MEMBER_ADD_member:
  "members_has (GUILD_MEMBER_ADD c data) (raw_guild_id data) (raw_user_id (raw_member_user data))
     = members_enabled c"
proof -
  obtain us m where f: "member_upsert data c
     = (if members_enabled c
        then c\<lparr>users := us,
               members := AList.update (raw_guild_id data, raw_user_id (raw_member_user data)) m
                            (members c)\<rparr>
        else c\<lparr>users := us\<rparr>)"
    using member_upsert_form by blast
  show ?thesis
    unfolding GUILD_MEMBER_ADD_upsert members_has_def
    using f by (simp add: guild_memberCount_incr_members cache_get2_def update_conv')
qed

subsection \<open>Deleting a role\<close>

lemma coll_has_coll_delete: "\<not> coll_has key (coll_delete key k xs) k"
  unfolding coll_has_def coll_get_def coll_delete_def by (induction xs) auto

lemma GUILD_ROLE_DELETE_guild:
  assumes "guilds_get (GUILD_ROLE_DELETE c gid r) gid = Some gd"
  shows "\<not> coll_has role_id (guild_roles gd) r"
proof (cases "guilds_get c gid")
  case None
  then show ?thesis using assms
    by (auto simp: GUILD_ROLE_DELETE_def guilds_get_def Let_def split: if_splits)
next
  case (Some g)
  then have en: "guilds_enabled c" and id: "guild_id g = gid"
    by (auto simp: guilds_get_def split: if_splits dest: coll_get_key)
  show ?thesis
  proof (cases "coll_has role_id (guild_roles g) r")
    case False
    then show ?thesis using assms Some
      by (auto simp: GUILD_ROLE_DELETE_def guilds_get_def Let_def split: if_splits)
  next
    case True
    let ?g = "g\<lparr>guild_roles := coll_delete role_id r (guild_roles g)\<rparr>"
    have "coll_get guild_id (coll_set guild_id ?g (guilds c)) (guild_id ?g) = Some ?g"
      by (rule coll_get_coll_set_same)
    then have "guilds_get (GUILD_ROLE_DELETE c gid r) gid = Some ?g"
      using True Some en id
      by (auto simp: GUILD_ROLE_DELETE_def guilds_get_def Let_def)
    with assms have "gd = ?g" by simp
    then show ?thesis by (simp add: coll_has_coll_delete)
  qed
qed

lemma GUILD_ROLE_DELETE_members:
  "members_of (GUILD_ROLE_DELETE c gid r) gid
     = map (\<lambda>e. (fst e, member_roles_delete r (snd e))) (members_of c gid)"
proof -
  have "cache_get1 (map (\<lambda>e. if fst (fst e) = gid
                             then (fst e, member_roles_delete r (snd e)) else e) xs) gid
        = map (\<lambda>e. (fst e, member_roles_delete r (snd e))) (cache_get1 xs gid)"
    for xs :: "((snowflake \<times> snowflake) \<times> member) list"
    unfolding cache_get1_def by (induction xs) auto
  then show ?thesis
    by (auto simp: GUILD_ROLE_DELETE_def members_of_def Let_def split: option.splits)
qed

lemma roles_after_delete:
  "\<not> (priv_roles m = None \<and> r = guildId m)
   \<Longrightarrow> map_of (roles c' (member_roles_delete r m)) r = None"
  by (auto simp: roles_def member_roles_delete_def delete_conv' split: option.splits)

subsection \<open>Voice states and reactions\<close>

lemma VOICE_STATE_UPDATE_cached_leaves:
  assumes "voiceStates_get c (js_or (vsu_guild_id data) (vsu_channel_id data)) (vsu_user_id data)
             = Some v"
      and "\<not> truthy (vsu_channel_id data)"
  shows "\<not> voiceStates_has (fst (VOICE_STATE_UPDATE c data))
            (js_or (vsu_guild_id data) (vsu_channel_id data)) (vsu_user_id data)
         \<and> snd (VOICE_STATE_UPDATE c data)"
  using assms
  by (simp add: VOICE_STATE_UPDATE_def Let_def voiceStates_has_def cache_get2_def
        cache_delete2_def delete_conv')



subsection \<open>The sweep of a guild\<close>

lemma Guild_merge_delete:
  "Guild_merge c g (raw_guild_of_delete data)
     = ((case gd_unavailable data of None \<Rightarrow> g\<lparr>guild_id := gd_id data\<rparr>
         | Some u \<Rightarrow> g\<lparr>guild_id := gd_id data, unavailable := u\<rparr>), c)"
  by (simp add: Guild_merge_def raw_guild_of_delete_def Let_def split: option.splits)

lemma fold_sweep_channel_fields:
  "members (fold (sweep_channel gid) chs c) = members c
   \<and> voiceStates (fold (sweep_channel gid) chs c) = voiceStates c
   \<and> users (fold (sweep_channel gid) chs c) = users c
   \<and> users_enabled (fold (sweep_channel gid) chs c) = users_enabled c
   \<and> messages_type (fold (sweep_channel gid) chs c) = messages_type c"
  by (induction chs arbitrary: c) (simp_all add: sweep_channel_def)

lemma fold_sweep_user_message_fields:
  "members (fold (sweep_user_message gid) es c) = members c
   \<and> voiceStates (fold (sweep_user_message gid) es c) = voiceStates c
   \<and> users (fold (sweep_user_message gid) es c) = users c
   \<and> users_enabled (fold (sweep_user_message gid) es c) = users_enabled c
   \<and> messages_type (fold (sweep_user_message gid) es c) = messages_type c"
  by (induction es arbitrary: c) (simp_all add: sweep_user_message_def)

lemma cache_get1_delete1: "cache_get1 (cache_delete1 k xs) k = []"
  unfolding cache_get1_def cache_delete1_def by (induction xs) auto

lemma cache_get1_empty_get2: "cache_get1 xs k = [] \<Longrightarrow> cache_get2 xs k u = None"
  unfolding cache_get1_def cache_get2_def by (induction xs) (auto split: if_splits)

lemma presences_clearGuildId_fields:
  "members (presences_clearGuildId gid c) = members c
   \<and> voiceStates (presences_clearGuildId gid c) = voiceStates c
   \<and> users (presences_clearGuildId gid c) = users c
   \<and> users_enabled (presences_clearGuildId gid c) = users_enabled c
   \<and> messages_type (presences_clearGuildId gid c) = messages_type c
   \<and> messages (presences_clearGuildId gid c) = messages c"
  by (simp add: presences_clearGuildId_def)

text \<open>What the sweep of a guild does to the member, voice-state, user and message stores.\<close>

lemma guild_sweep_fields:
  "members (guild_sweep gid c) = cache_delete1 gid (members c)
   \<and> voiceStates (guild_sweep gid c) = cache_delete1 (Some gid) (voiceStates c)
   \<and> users (guild_sweep gid c) = users c
   \<and> users_enabled (guild_sweep gid c) = users_enabled c
   \<and> messages_type (guild_sweep gid c) = messages_type c
   \<and> (messages_type c = GUILD \<longrightarrow> cache_get1 (messages (guild_sweep gid c)) gid = [])"
  unfolding guild_sweep_def Let_def
  by (simp add: fold_sweep_channel_fields fold_sweep_user_message_fields
        presences_clearGuildId_fields cache_get1_delete1)

lemma guild_sweep_messages:
  "messages_type c = GUILD \<Longrightarrow> cache_get1 (messages (guild_sweep gid c)) gid = []"
  using guild_sweep_fields[of gid c] by simp

lemma GUILD_DELETE_client:
  assumes "guilds_get (client h) (gd_id data) = Some g"
  shows "cache_get1 (members (client (GUILD_DELETE h data))) (gd_id data) = []
         \<and> cache_get1 (voiceStates (client (GUILD_DELETE h data))) (Some (gd_id data)) = []
         \<and> (messages_type (client h) = GUILD
              \<longrightarrow> cache_get1 (messages (client (GUILD_DELETE h data))) (gd_id data) = [])
         \<and> users (client (GUILD_DELETE h data)) = users (client h)
         \<and> users_enabled (client (GUILD_DELETE h data)) = users_enabled (client h)"
proof -
  let ?g = "(case gd_unavailable data of None \<Rightarrow> g\<lparr>guild_id := gd_id data\<rparr>
         | Some u \<Rightarrow> g\<lparr>guild_id := gd_id data, unavailable := u\<rparr>)"
  let ?c1 = "(client h)\<lparr>guilds := coll_set guild_id ?g (guilds (client h))\<rparr>"
  have up: "guild_upsert (client h) (raw_guild_of_delete data) = (?g, ?c1, False)"
  proof -
    have "rg_id (raw_guild_of_delete data) = gd_id data" by (simp add: raw_guild_of_delete_def)
    then show ?thesis using assms by (simp add: guild_upsert_def Guild_merge_delete)
  qed
  have c: "client (GUILD_DELETE h data)
      = (if gd_unavailable data \<noteq> Some True
         then guilds_delete (gd_id data) (guild_sweep (gd_id data) ?c1)
         else guild_sweep (gd_id data) ?c1)"
    unfolding GUILD_DELETE_def Let_def up by simp
  note sw = guild_sweep_fields [THEN conjunct1]
    guild_sweep_fields [THEN conjunct2, THEN conjunct1]
    guild_sweep_fields [THEN conjunct2, THEN conjunct2, THEN conjunct1]
    guild_sweep_fields [THEN conjunct2, THEN conjunct2, THEN conjunct2, THEN conjunct1]
  have "cache_get1 (members (client (GUILD_DELETE h data))) (gd_id data) = []"
    unfolding c by (simp add: guilds_delete_def sw cache_get1_delete1)
  moreover have "cache_get1 (voiceStates (client (GUILD_DELETE h data))) (Some (gd_id data)) = []"
    unfolding c by (simp add: guilds_delete_def sw cache_get1_delete1)
  moreover have "cache_get1 (messages (client (GUILD_DELETE h data))) (gd_id data) = []"
    if "messages_type (client h) = GUILD"
    unfolding c using that by (simp add: guilds_delete_def guild_sweep_messages)
  moreover have "users (client (GUILD_DELETE h data)) = users (client h)"
                "users_enabled (client (GUILD_DELETE h data)) = users_enabled (client h)"
    unfolding c by (simp_all add: guilds_delete_def sw)
  ultimately show ?thesis by blast
qed

subsection \<open>The coordinator\<close>





subsection \<open>The evaluate protocol\<close>

text \<open>The worker's reply to a request, by whether it owns the target shard.\<close>

lemma child_ignored:
  assumes "msg_op m = OP_EVAL" "msg_request m" "msg_data m = EvalData d"
          "msg_shard m = Some sh" "sh \<notin> set (shards w)"
  shows "child_onMessage eval_fn w (Envelope m)
           = w\<lparr>sent_to_parent := sent_to_parent w
                  @ [sendIPC OP_EVAL (EvalData (d\<lparr>ev_ignored := Some True\<rparr>)) False None]\<rparr>"
  using assms by (simp add: child_onMessage_def child_send_def)

lemma child_executes:
  assumes "msg_op m = OP_EVAL" "msg_request m" "msg_data m = EvalData d"
          "case msg_shard m of Some sh \<Rightarrow> sh \<in> set (shards w) | None \<Rightarrow> True"
          "eval_fn (ev_code d) = Inr v"
  shows "child_onMessage eval_fn w (Envelope m)
           = w\<lparr>evaluated := evaluated w @ [ev_code d],
               sent_to_parent := sent_to_parent w
                  @ [sendIPC OP_EVAL (EvalData (d\<lparr>ev_result := Some v\<rparr>)) False None]\<rparr>"
  using assms by (auto simp add: child_onMessage_def child_send_def Let_def split: option.splits)

text \<open>Settling promises: lengths, finality, and the chained promise.\<close>

lemma settle_length: "length (settle p st ps) = length ps"
  by (simp add: settle_def)

lemma fold_settle_length:
  "length (fold (\<lambda>t qs. if fst t = p then settle (snd t) st qs else qs) ts ps) = length ps"
  by (induction ts arbitrary: ps) (simp_all add: settle_length)

lemma settle_chain_length: "length (settle_chain ts p st ps) = length ps"
  by (simp add: settle_chain_def fold_settle_length)

lemma settle_final: "i < length ps \<Longrightarrow> ps ! i \<noteq> Pending \<Longrightarrow> settle p st ps ! i = ps ! i"
  by (auto simp: settle_def nth_list_update)

lemma settle_other: "i \<noteq> p \<Longrightarrow> settle p st ps ! i = ps ! i"
  by (auto simp: settle_def)

lemma fold_settle_other:
  "\<forall>t \<in> set ts. fst t = p \<longrightarrow> snd t \<noteq> i
   \<Longrightarrow> fold (\<lambda>t qs. if fst t = p then settle (snd t) st qs else qs) ts ps ! i = ps ! i"
  by (induction ts arbitrary: ps) (auto simp: settle_other)

lemma fold_settle_final:
  "i < length ps \<Longrightarrow> ps ! i \<noteq> Pending
   \<Longrightarrow> fold (\<lambda>t qs. if fst t = p then settle (snd t) st qs else qs) ts ps ! i = ps ! i"
  by (induction ts arbitrary: ps) (auto simp: settle_final settle_length)

lemma settle_chain_final:
  assumes "i < length ps" "ps ! i \<noteq> Pending"
  shows "settle_chain ts p st ps ! i = ps ! i"
proof (cases "p < length ps \<and> ps ! p = Pending")
  case False
  then show ?thesis by (auto simp: settle_chain_def)
next
  case True
  then have ne: "i \<noteq> p" using assms by auto
  have "i < length (ps[p := st])" "(ps[p := st]) ! i \<noteq> Pending"
    using assms ne by simp_all
  then have "fold (\<lambda>t qs. if fst t = p then settle (snd t) st qs else qs) ts (ps[p := st]) ! i
               = (ps[p := st]) ! i"
    by (rule fold_settle_final)
  then show ?thesis using True ne by (simp add: settle_chain_def)
qed

lemma settle_chain_other:
  "i \<noteq> p \<Longrightarrow> \<forall>t \<in> set ts. fst t = p \<longrightarrow> snd t \<noteq> i \<Longrightarrow> settle_chain ts p st ps ! i = ps ! i"
  by (auto simp: settle_chain_def fold_settle_other)

lemma settle_chain_self:
  "p < length ps \<Longrightarrow> ps ! p = Pending \<Longrightarrow> st \<noteq> Pending \<Longrightarrow> settle_chain ts p st ps ! p = st"
proof -
  assume a: "p < length ps" "ps ! p = Pending" "st \<noteq> Pending"
  have "(ps[p := st]) ! p = st" using a by simp
  moreover have "p < length (ps[p := st])" using a by simp
  ultimately have "fold (\<lambda>t qs. if fst t = p then settle (snd t) st qs else qs) ts (ps[p := st]) ! p = st"
    using fold_settle_final[of p "ps[p := st]" p st ts] a by simp
  then show ?thesis using a by (simp add: settle_chain_def)
qed

lemma fold_settle_linked:
  "(p, q) \<in> set ts \<Longrightarrow> q < length ps \<Longrightarrow> ps ! q = Pending \<Longrightarrow> st \<noteq> Pending
   \<Longrightarrow> fold (\<lambda>t qs. if fst t = p then settle (snd t) st qs else qs) ts ps ! q = st"
proof (induction ts arbitrary: ps)
  case Nil then show ?case by simp
next
  case (Cons t ts)
  show ?case
  proof (cases "fst t = p")
    case False
    then show ?thesis using Cons by auto
  next
    case True
    show ?thesis
    proof (cases "snd t = q")
      case True
      have "settle q st ps ! q = st" using Cons.prems by (simp add: settle_def)
      then show ?thesis using \<open>fst t = p\<close> True Cons.prems
        fold_settle_final[of q "settle q st ps" p st ts]
        by (simp add: settle_length)
    next
      case False
      then have "settle (snd t) st ps ! q = Pending" using Cons.prems by (simp add: settle_other)
      moreover have "(p, q) \<in> set ts" using Cons.prems False \<open>fst t = p\<close> by (cases t) auto
      ultimately show ?thesis using Cons.IH[of "settle (snd t) st ps"] Cons.prems True
        by (simp add: settle_length)
    qed
  qed
qed

lemma settle_chain_linked:
  "(p, q) \<in> set ts \<Longrightarrow> p \<noteq> q \<Longrightarrow> p < length ps \<Longrightarrow> ps ! p = Pending
   \<Longrightarrow> q < length ps \<Longrightarrow> ps ! q = Pending \<Longrightarrow> st \<noteq> Pending
   \<Longrightarrow> settle_chain ts p st ps ! q = st"
  by (simp add: settle_chain_def fold_settle_linked)


text \<open>What a listener, and a message through all listeners, does to the promises.\<close>

lemma listener_thens: "thens (listener n r m s) = thens s"
  by (simp add: listener_def removeListener_def Let_def split: ClusterIPCOpCodes.splits ipc_payload.splits)

lemma listener_length: "length (promises (listener n r m s)) = length (promises s)"
  by (simp add: listener_def removeListener_def Let_def settle_chain_length
        split: ClusterIPCOpCodes.splits ipc_payload.splits)

lemma listener_final:
  "i < length (promises s) \<Longrightarrow> promises s ! i \<noteq> Pending
   \<Longrightarrow> promises (listener n r m s) ! i = promises s ! i"
  by (simp add: listener_def removeListener_def Let_def settle_chain_final
        split: ClusterIPCOpCodes.splits ipc_payload.splits)

lemma listener_other:
  "i \<noteq> r \<Longrightarrow> \<forall>t \<in> set (thens s). fst t = r \<longrightarrow> snd t \<noteq> i
   \<Longrightarrow> promises (listener n r m s) ! i = promises s ! i"
  by (simp add: listener_def removeListener_def Let_def settle_chain_other
        split: ClusterIPCOpCodes.splits ipc_payload.splits)

lemma fold_listener_thens: "thens (fold (\<lambda>l. listener (fst l) (snd l) m) ls s) = thens s"
  by (induction ls arbitrary: s) (simp_all add: listener_thens)

lemma fold_listener_length:
  "length (promises (fold (\<lambda>l. listener (fst l) (snd l) m) ls s)) = length (promises s)"
  by (induction ls arbitrary: s) (simp_all add: listener_length)

lemma fold_listener_final:
  "i < length (promises s) \<Longrightarrow> promises s ! i \<noteq> Pending
   \<Longrightarrow> promises (fold (\<lambda>l. listener (fst l) (snd l) m) ls s) ! i = promises s ! i"
  by (induction ls arbitrary: s) (simp_all add: listener_final listener_length)

lemma fold_listener_above:
  assumes "\<forall>l \<in> set ls. snd l < k"
      and "\<forall>t \<in> set (thens s). fst t < k \<longrightarrow> snd t < k"
      and "k \<le> i"
  shows "promises (fold (\<lambda>l. listener (fst l) (snd l) m) ls s) ! i = promises s ! i"
  using assms
proof (induction ls arbitrary: s)
  case Nil then show ?case by simp
next
  case (Cons l ls)
  have "promises (listener (fst l) (snd l) m s) ! i = promises s ! i"
    using Cons.prems by (intro listener_other) auto
  moreover have "promises (fold (\<lambda>l. listener (fst l) (snd l) m) ls (listener (fst l) (snd l) m s)) ! i
      = promises (listener (fst l) (snd l) m s) ! i"
    using Cons.prems by (intro Cons.IH) (auto simp: listener_thens)
  ultimately show ?case by simp
qed

lemma listener_fires:
  assumes "msg_op m = OP_EVAL" "msg_data m = EvalData d" "ev_nonce d = n"
      and "r < length (promises s)" "promises s ! r = Pending"
  shows "promises (listener n r m s) ! r = Resolved (reply_outcome d)"
  using assms
  by (simp add: listener_def removeListener_def Let_def settle_chain_self)

lemma listener_fires_linked:
  assumes "msg_op m = OP_EVAL" "msg_data m = EvalData d" "ev_nonce d = n"
      and "r < length (promises s)" "promises s ! r = Pending"
      and "(r, q) \<in> set (thens s)" "r \<noteq> q" "q < length (promises s)" "promises s ! q = Pending"
  shows "promises (listener n r m s) ! q = Resolved (reply_outcome d)"
  using assms
  by (simp add: listener_def removeListener_def Let_def settle_chain_linked)

text \<open>The state after \<open>eval\<close> with a nonce that is not waiting, and after the reply.\<close>

lemma eval_fresh:
  assumes "process s0 = Some child" "map_of (evalsWaiting s0) nonce = None"
  shows "eval s0 c nonce =
     (Inr (length (promises s0)),
      s0\<lparr>process := Some (child\<lparr>listeners := listeners child @ [(nonce, Suc (length (promises s0)))],
                              sent := sent child @ [eval_request c nonce]\<rparr>),
         promises := promises s0 @ [Pending, Pending],
         evalsWaiting := AList.update nonce
            \<lparr>promise = Suc (length (promises s0)), resolve = length (promises s0),
             reject = length (promises s0)\<rparr> (evalsWaiting s0),
         thens := thens s0 @ [(Suc (length (promises s0)), length (promises s0))]\<rparr>)"
  using assms by (simp add: eval_def Let_def)

lemma eval_again:
  assumes "process s0 = Some child" "map_of (evalsWaiting s0) nonce = None"
  shows "eval (snd (eval s0 c nonce)) c' nonce = (Inr (Suc (length (promises s0))), snd (eval s0 c nonce))"
  unfolding eval_fresh[OF assms] by (simp add: eval_def update_conv')

lemma eval_then_reply:
  assumes "process s0 = Some child" "map_of (evalsWaiting s0) nonce = None" "promises_wf s0"
      and "msg_op m = OP_EVAL" "msg_data m = EvalData d" "ev_nonce d = nonce"
  shows "promises (child_message m (snd (eval s0 c nonce))) ! length (promises s0)
           = Resolved (reply_outcome d)
         \<and> promises (child_message m (snd (eval s0 c nonce))) ! Suc (length (promises s0))
           = Resolved (reply_outcome d)"
proof -
  let ?k = "length (promises s0)"
  let ?s1 = "snd (eval s0 c nonce)"
  let ?f = "\<lambda>l. listener (fst l) (snd l) m"
  let ?s' = "fold ?f (listeners child) ?s1"
  have s1: "?s1 = s0\<lparr>process := Some (child\<lparr>listeners := listeners child @ [(nonce, Suc ?k)],
                              sent := sent child @ [eval_request c nonce]\<rparr>),
         promises := promises s0 @ [Pending, Pending],
         evalsWaiting := AList.update nonce
            \<lparr>promise = Suc ?k, resolve = ?k, reject = ?k\<rparr> (evalsWaiting s0),
         thens := thens s0 @ [(Suc ?k, ?k)]\<rparr>"
    using eval_fresh[OF assms(1,2)] by simp
  have wl: "\<forall>l \<in> set (listeners child). snd l < ?k"
    using assms(1,3) by (simp add: promises_wf_def list_all_iff)
  have wt: "\<forall>t \<in> set (thens ?s1). fst t < ?k \<longrightarrow> snd t < ?k"
    using assms(3) by (auto simp: s1 promises_wf_def list_all_iff)
  have cm: "child_message m ?s1 = listener nonce (Suc ?k) m ?s'"
    by (simp add: child_message_def s1)
  have len: "length (promises ?s') = ?k + 2"
    by (simp add: fold_listener_length s1)
  have th: "thens ?s' = thens s0 @ [(Suc ?k, ?k)]"
    by (simp add: fold_listener_thens s1)
  have pk: "promises ?s' ! ?k = Pending"
    using fold_listener_above[OF wl wt, of ?k m] by (simp add: s1 nth_append)
  have pk1: "promises ?s' ! Suc ?k = Pending"
    using fold_listener_above[OF wl wt, of "Suc ?k" m] by (simp add: s1 nth_append)
  have a: "promises (listener nonce (Suc ?k) m ?s') ! Suc ?k = Resolved (reply_outcome d)"
    using assms(4-6) len pk1 by (intro listener_fires) simp_all
  have b: "promises (listener nonce (Suc ?k) m ?s') ! ?k = Resolved (reply_outcome d)"
    using assms(4-6) len pk pk1 th by (intro listener_fires_linked[where r="Suc ?k"]) simp_all
  from a b show ?thesis unfolding cm by simp
qed


lemma child_message_length: "length (promises (child_message m s)) = length (promises s)"
  by (simp add: child_message_def fold_listener_length split: option.splits)

lemma child_message_final:
  "i < length (promises s) \<Longrightarrow> promises s ! i \<noteq> Pending
   \<Longrightarrow> promises (child_message m s) ! i = promises s ! i"
  by (simp add: child_message_def fold_listener_final split: option.splits)

lemma exited_child_message_length:
  "length (promises (exited_child_message p m s)) = length (promises s)"
  by (simp add: exited_child_message_def fold_listener_length)

lemma exited_child_message_final:
  "i < length (promises s) \<Longrightarrow> promises s ! i \<noteq> Pending
   \<Longrightarrow> promises (exited_child_message p m s) ! i = promises s ! i"
  by (simp add: exited_child_message_def fold_listener_final)

lemma fold_exit_entry_length:
  "length (promises (fold (exit_entry c sg) es s)) = length (promises s)"
  by (induction es arbitrary: s) (simp_all add: exit_entry_def settle_length)

lemma fold_exit_entry_final:
  "i < length (promises s) \<Longrightarrow> promises s ! i \<noteq> Pending
   \<Longrightarrow> promises (fold (exit_entry c sg) es s) ! i = promises s ! i"
  by (induction es arbitrary: s) (simp_all add: exit_entry_def settle_final settle_length)

lemma run_promises: "promises (run s) = promises s"
  by (simp add: run_def split: option.splits)

lemma onExit_length: "length (promises (onExit c sg s)) = length (promises s)"
  by (simp add: onExit_def Let_def run_promises fold_exit_entry_length)

lemma onExit_final:
  "i < length (promises s) \<Longrightarrow> promises s ! i \<noteq> Pending
   \<Longrightarrow> promises (onExit c sg s) ! i = promises s ! i"
  by (simp add: onExit_def Let_def run_promises fold_exit_entry_final)

lemma eval_send_failed_final:
  "i < length (promises s) \<Longrightarrow> promises s ! i \<noteq> Pending
   \<Longrightarrow> promises (eval_send_failed n r e s) ! i = promises s ! i"
  by (simp add: eval_send_failed_def Let_def removeListener_def settle_chain_final)

lemma eval_final:
  "i < length (promises s) \<Longrightarrow> promises (snd (eval s c n)) ! i = promises s ! i"
  by (simp add: eval_def Let_def nth_append split: option.splits)

lemma closed_message_ex:
  "closed_message 1 ''SIGTERM''
     = ''Process has closed with '' @ [CHR 0x27] @ ''1'' @ [CHR 0x27] @ '' code and ''
         @ [CHR 0x27] @ ''SIGTERM'' @ [CHR 0x27] @ '' signal.''"
  by (simp add: closed_message_def template_number_def digit_of_def)

lemma in_set_remove1: "x \<in> set (remove1 y xs) \<Longrightarrow> x \<in> set xs"
  by (meson notin_set_remove1)

lemma promises_wf_initial:
  "promises_wf \<lparr>process = None, exited = [], evalsWaiting = [], promises = [], thens = [],
                respawn = r, next_pid = n\<rparr>"
  by (simp add: promises_wf_def)

lemma promises_wf_run: "promises_wf s \<Longrightarrow> promises_wf (run s)"
  by (simp add: run_def promises_wf_def split: option.splits)

lemma run_evalsWaiting: "evalsWaiting (run s) = evalsWaiting s"
  by (simp add: run_def split: option.splits)

lemma promises_wf_eval: "promises_wf s \<Longrightarrow> promises_wf (snd (eval s c n))"
  by (fastforce simp: eval_def Let_def promises_wf_def list_all_iff less_Suc_eq
        split: option.splits)

lemma listener_process:
  "set (case process (listener n r m s) of Some child \<Rightarrow> listeners child | None \<Rightarrow> [])
     \<subseteq> set (case process s of Some child \<Rightarrow> listeners child | None \<Rightarrow> [])"
  by (auto simp: listener_def removeListener_def Let_def
        split: ClusterIPCOpCodes.splits ipc_payload.splits option.splits dest: in_set_remove1)

lemma fold_listener_process:
  "set (case process (fold (\<lambda>l. listener (fst l) (snd l) m) ls s) of
          Some child \<Rightarrow> listeners child | None \<Rightarrow> [])
     \<subseteq> set (case process s of Some child \<Rightarrow> listeners child | None \<Rightarrow> [])"
proof (induction ls arbitrary: s)
  case Nil then show ?case by simp
next
  case (Cons l ls)
  show ?case
    using Cons.IH[of "listener (fst l) (snd l) m s"] listener_process[of "fst l" "snd l" m s]
    by simp
qed

lemma promises_wf_child_message: "promises_wf s \<Longrightarrow> promises_wf (child_message m s)"
proof (cases "process s")
  case None
  then show "promises_wf s \<Longrightarrow> promises_wf (child_message m s)" by (simp add: child_message_def)
next
  case (Some child)
  assume wf: "promises_wf s"
  have cm: "child_message m s = fold (\<lambda>l. listener (fst l) (snd l) m) (listeners child) s"
    using Some by (simp add: child_message_def)
  show "promises_wf (child_message m s)"
    unfolding cm promises_wf_def fold_listener_length fold_listener_thens
    using wf fold_listener_process[of m "listeners child" s]
    by (auto simp: promises_wf_def list_all_iff)
qed

lemma promises_wf_exited_child_message:
  "promises_wf s \<Longrightarrow> promises_wf (exited_child_message p m s)"
  unfolding exited_child_message_def promises_wf_def fold_listener_length fold_listener_thens
  using fold_listener_process
          [of m "concat (map listeners (filter (\<lambda>child. pid child = p) (exited s)))" s]
  by (auto simp: list_all_iff)

lemma fold_exit_entry_fields:
  "thens (fold (exit_entry c sg) es s) = thens s
   \<and> process (fold (exit_entry c sg) es s) = process s
   \<and> respawn (fold (exit_entry c sg) es s) = respawn s"
  by (induction es arbitrary: s) (simp_all add: exit_entry_def)

lemma promises_wf_onExit: "promises_wf s \<Longrightarrow> promises_wf (onExit c sg s)"
  by (simp add: onExit_def Let_def run_def promises_wf_def fold_exit_entry_fields
        fold_exit_entry_length)

lemma promises_wf_eval_send_failed: "promises_wf s \<Longrightarrow> promises_wf (eval_send_failed n r e s)"
  by (auto simp: eval_send_failed_def Let_def removeListener_def promises_wf_def list_all_iff
        settle_chain_length split: option.splits dest: in_set_remove1)

text \<open>What \<open>onExit\<close> does to the waiting entries.\<close>

lemma fold_exit_entry_waiting:
  "map fst (evalsWaiting (fold (exit_entry c sg) es s))
     = filter (\<lambda>k. k \<notin> fst ` set es) (map fst (evalsWaiting s))"
proof (induction es arbitrary: s)
  case Nil then show ?case by simp
next
  case (Cons e es)
  have d: "map fst (evalsWaiting (exit_entry c sg e s)) = removeAll (fst e) (map fst (evalsWaiting s))"
    by (simp add: exit_entry_def delete_keys)
  have "filter (\<lambda>k. k \<notin> fst ` set es) (removeAll (fst e) ks)
          = filter (\<lambda>k. k \<notin> fst ` set (e # es)) ks" for ks :: "string list"
    by (induction ks) auto
  then show ?case using Cons.IH[of "exit_entry c sg e s"] d by simp
qed

lemma fold_exit_entry_settles:
  assumes "e \<in> set es" "resolve (snd e) < length (promises s)"
      and "promises s ! resolve (snd e) = Pending"
  shows "promises (fold (exit_entry c sg) es s) ! resolve (snd e)
           = Resolved (Some (Error (closed_message c sg), True))"
  using assms
proof (induction es arbitrary: s)
  case Nil then show ?case by simp
next
  case (Cons x es)
  let ?st = "Resolved (Some (Error (closed_message c sg), True))"
  let ?s1 = "exit_entry c sg x s"
  have len: "length (promises ?s1) = length (promises s)" by (simp add: exit_entry_def settle_length)
  show ?case
  proof (cases "resolve (snd x) = resolve (snd e)")
    case True
    then have "promises ?s1 ! resolve (snd e) = ?st"
      using Cons.prems by (simp add: exit_entry_def settle_def)
    then show ?thesis using fold_exit_entry_final[of "resolve (snd e)" ?s1 c sg es] Cons.prems len
      by simp
  next
    case False
    then have "promises ?s1 ! resolve (snd e) = Pending"
      using Cons.prems by (simp add: exit_entry_def settle_other)
    moreover have "e \<in> set es" using Cons.prems False by auto
    ultimately show ?thesis using Cons.IH[of ?s1] Cons.prems len by simp
  qed
qed

text \<open>
  What \<open>onExit\<close> does achieve, for every state: the table is empty afterwards, and the
  promise behind the \<open>resolve\<close> of every entry that was waiting, if it was pending, is
  resolved with the pair of the error for the exit code and signal, and true.
\<close>

lemma onExit_resolves_waiting:
  "evalsWaiting (onExit c sg s) = []
   \<and> (\<forall>e \<in> set (evalsWaiting s).
        resolve (snd e) < length (promises s) \<longrightarrow> promises s ! resolve (snd e) = Pending
        \<longrightarrow> promises (onExit c sg s) ! resolve (snd e)
              = Resolved (Some (Error (closed_message c sg), True)))"
proof -
  let ?s1 = "s\<lparr>process := None,
                exited := (case process s of
                             Some child \<Rightarrow> exited s @ [child]
                           | None \<Rightarrow> exited s)\<rparr>"
  have "map fst (evalsWaiting (fold (exit_entry c sg) (evalsWaiting ?s1) ?s1)) = []"
    unfolding fold_exit_entry_waiting by (simp add: filter_empty_conv)
  then have a: "evalsWaiting (onExit c sg s) = []"
    by (simp add: onExit_def Let_def run_evalsWaiting)
  have b: "promises (onExit c sg s) ! resolve (snd e)
              = Resolved (Some (Error (closed_message c sg), True))"
    if "e \<in> set (evalsWaiting s)" "resolve (snd e) < length (promises s)"
       "promises s ! resolve (snd e) = Pending" for e
    using fold_exit_entry_settles[of e "evalsWaiting ?s1" ?s1 c sg] that
    by (simp add: onExit_def Let_def run_promises)
  from a b show ?thesis by blast
qed

section \<open>The claims\<close>

subsection \<open>The default role of a member\<close>



subsection \<open>GUILD_MEMBER_ADD\<close>

text \<open>
  C3, as amended. For a GUILD_MEMBER_ADD event whose guild is cached, the handler leaves
  the guild as it was except that its member count is one higher, whether or not the
  member was cached before; and when the member store is enabled, the member is
  afterwards in the store under the guild id and the user id of the event.
\<close>

theorem guild_member_add_count_and_member:
  assumes "guilds_get c (raw_guild_id data) = Some g"
  shows "guilds_get (GUILD_MEMBER_ADD c data) (raw_guild_id data)
           = Some (g\<lparr>memberCount := memberCount g + 1\<rparr>)
         \<and> (members_enabled c \<longrightarrow>
              members_has (GUILD_MEMBER_ADD c data) (raw_guild_id data)
                (raw_user_id (raw_member_user data)))"
  using GUILD_MEMBER_ADD_guild [OF assms] GUILD_MEMBER_ADD_member [of c data] by blast

theorem guild_member_add_count_and_member_witness:
  "guilds_get ex_client (raw_guild_id ex_raw_member) = Some ex_guild
   \<and> members_enabled ex_client
   \<and> \<not> members_has ex_client ''g1'' ''u2''
   \<and> guilds_get (GUILD_MEMBER_ADD ex_client ex_raw_member) ''g1'' = Some (ex_guild\<lparr>memberCount := 6\<rparr>)
   \<and> members_has (GUILD_MEMBER_ADD ex_client ex_raw_member) ''g1'' ''u2''"
proof -
  have h: "guilds_get ex_client (raw_guild_id ex_raw_member) = Some ex_guild"
    by (simp add: guilds_get_def coll_get_def ex_client_def ex_raw_member_def ex_guild_def)
  have e: "members_enabled ex_client" "\<not> members_has ex_client ''g1'' ''u2''"
    by (simp_all add: ex_client_def members_has_def cache_get2_def)
  have k: "raw_guild_id ex_raw_member = ''g1''" "raw_user_id (raw_member_user ex_raw_member) = ''u2''"
          "memberCount ex_guild = 5"
    by (simp_all add: ex_raw_member_def ex_guild_def)
  show ?thesis
    using guild_member_add_count_and_member [OF h] h e k by simp
qed

text \<open>
  C3 as stated fails when the member store is disabled: the count of the cached guild goes
  from 5 to 6, and the member is not in the store afterwards.
\<close>

theorem guild_member_add_counterexample:
  "guilds_has (ex_client\<lparr>members_enabled := False, members := []\<rparr>) ''g1''
   \<and> guilds_get (GUILD_MEMBER_ADD (ex_client\<lparr>members_enabled := False, members := []\<rparr>) ex_raw_member) ''g1''
       = Some (ex_guild\<lparr>memberCount := 6\<rparr>)
   \<and> \<not> members_has (GUILD_MEMBER_ADD (ex_client\<lparr>members_enabled := False, members := []\<rparr>) ex_raw_member)
          ''g1'' ''u2''"
proof -
  let ?c = "ex_client\<lparr>members_enabled := False, members := []\<rparr>"
  have h: "guilds_get ?c (raw_guild_id ex_raw_member) = Some ex_guild"
    by (simp add: guilds_get_def coll_get_def ex_client_def ex_raw_member_def ex_guild_def)
  have a: "guilds_has ?c ''g1''"
    by (simp add: guilds_has_def coll_has_def coll_get_def ex_client_def ex_guild_def)
  have k: "raw_guild_id ex_raw_member = ''g1''" "memberCount ex_guild = 5"
          "raw_user_id (raw_member_user ex_raw_member) = ''u2''"
    by (simp_all add: ex_raw_member_def ex_guild_def)
  have e: "\<not> members_enabled ?c" by simp
  show ?thesis
    using GUILD_MEMBER_ADD_guild [OF h] GUILD_MEMBER_ADD_member [of ?c ex_raw_member] a k e
    by simp
qed

subsection \<open>GUILD_ROLE_DELETE\<close>

text \<open>
  C2, as amended. After the handler of a GUILD_ROLE_DELETE event for the guild \<open>gid\<close> and
  the role \<open>r\<close>, the role collection of the cached guild does not contain \<open>r\<close>, and for
  every member cached under the guild, whenever it was inserted, the explicit role
  collection of the member, if there is one, does not contain \<open>r\<close>; so the collection the
  \<open>roles\<close> accessor returns does not contain \<open>r\<close>, unless the member has no explicit
  collection and \<open>r\<close> is the member's guild id, the key under which the accessor makes the
  default-role entry on every read.
\<close>

theorem guild_role_delete_removes_role:
  "(\<forall>gd. guilds_get (GUILD_ROLE_DELETE c gid r) gid = Some gd
          \<longrightarrow> \<not> coll_has role_id (guild_roles gd) r)
   \<and> (\<forall>e \<in> set (members_of (GUILD_ROLE_DELETE c gid r) gid).
         (case priv_roles (snd e) of Some collection \<Rightarrow> map_of collection r = None | None \<Rightarrow> True)
         \<and> (\<not> (priv_roles (snd e) = None \<and> r = guildId (snd e))
              \<longrightarrow> map_of (roles (GUILD_ROLE_DELETE c gid r) (snd e)) r = None))"
proof (intro conjI allI impI ballI)
  fix gd assume "guilds_get (GUILD_ROLE_DELETE c gid r) gid = Some gd"
  then show "\<not> coll_has role_id (guild_roles gd) r" by (rule GUILD_ROLE_DELETE_guild)
next
  fix e assume "e \<in> set (members_of (GUILD_ROLE_DELETE c gid r) gid)"
  then obtain e0 where e: "e = (fst e0, member_roles_delete r (snd e0))"
    unfolding GUILD_ROLE_DELETE_members by auto
  show "case priv_roles (snd e) of Some collection \<Rightarrow> map_of collection r = None | None \<Rightarrow> True"
    unfolding e by (auto simp: member_roles_delete_def delete_conv' split: option.splits)
  assume "\<not> (priv_roles (snd e) = None \<and> r = guildId (snd e))"
  then have "\<not> (priv_roles (snd e0) = None \<and> r = guildId (snd e0))"
    unfolding e by (auto simp: member_roles_delete_def split: option.splits)
  then show "map_of (roles (GUILD_ROLE_DELETE c gid r) (snd e)) r = None"
    unfolding e snd_conv by (rule roles_after_delete)
qed

text \<open>
  The scenario of the specification: the role \<open>r1\<close> of the guild \<open>g1\<close> is on the role list
  of the member \<open>u1\<close>; after GUILD_ROLE_DELETE for \<open>g1\<close> and \<open>r1\<close> neither the guild nor the
  member has it.
\<close>

theorem guild_role_delete_removes_role_witness:
  "guilds_get (GUILD_ROLE_DELETE (ex_client\<lparr>members := [((''g1'', ''u1''), ex_member_r1)]\<rparr>)
       ''g1'' ''r1'') ''g1''
     = Some (ex_guild\<lparr>guild_roles := [ex_everyone]\<rparr>)
   \<and> \<not> coll_has role_id [ex_everyone] ''r1''
   \<and> members_of (GUILD_ROLE_DELETE (ex_client\<lparr>members := [((''g1'', ''u1''), ex_member_r1)]\<rparr>)
        ''g1'' ''r1'') ''g1''
       = [(''u1'', ex_member\<lparr>priv_roles := Some [(''g1'', Some ex_everyone)]\<rparr>)]
   \<and> map_of (roles (GUILD_ROLE_DELETE (ex_client\<lparr>members := [((''g1'', ''u1''), ex_member_r1)]\<rparr>)
                ''g1'' ''r1'')
         (ex_member\<lparr>priv_roles := Some [(''g1'', Some ex_everyone)]\<rparr>)) ''r1'' = None"
proof -
  let ?c = "ex_client\<lparr>members := [((''g1'', ''u1''), ex_member_r1)]\<rparr>"
  have g: "guilds_get (GUILD_ROLE_DELETE ?c ''g1'' ''r1'') ''g1''
             = Some (ex_guild\<lparr>guild_roles := [ex_everyone]\<rparr>)"
    by (simp add: GUILD_ROLE_DELETE_def ex_client_def guilds_get_def coll_get_def ex_guild_def
          ex_role1_def ex_everyone_def coll_has_def coll_set_def coll_delete_def Let_def)
  have m: "members_of (GUILD_ROLE_DELETE ?c ''g1'' ''r1'') ''g1''
             = [(''u1'', ex_member\<lparr>priv_roles := Some [(''g1'', Some ex_everyone)]\<rparr>)]"
    by (simp add: GUILD_ROLE_DELETE_def members_of_def cache_get1_def ex_client_def guilds_get_def
          coll_get_def ex_guild_def ex_role1_def ex_everyone_def coll_has_def ex_member_r1_def
          member_roles_delete_def ex_member_def Let_def)
  show ?thesis
    using guild_role_delete_removes_role [of ?c "''g1''" "''r1''"] g m by simp
qed

text \<open>
  C2 as stated fails for the role id that is the guild id itself: the member \<open>u1\<close> of \<open>g1\<close>
  has no explicit role list, and after GUILD_ROLE_DELETE for \<open>g1\<close> and the role \<open>g1\<close> the
  collection that its \<open>roles\<close> accessor returns still has the key \<open>g1\<close> (now with null).
\<close>

theorem guild_role_delete_counterexample:
  "members_of (GUILD_ROLE_DELETE ex_client ''g1'' ''g1'') ''g1'' = [(''u1'', ex_member)]
   \<and> map_of (roles (GUILD_ROLE_DELETE ex_client ''g1'' ''g1'') ex_member) ''g1'' = Some None"
  by (simp add: GUILD_ROLE_DELETE_def members_of_def cache_get1_def ex_client_def guilds_get_def
        coll_get_def ex_guild_def ex_role1_def ex_everyone_def coll_has_def member_roles_delete_def
        ex_member_def Let_def roles_def member_guild_def defaultRole_def coll_set_def
        coll_delete_def)

subsection \<open>VOICE_STATE_UPDATE\<close>

text \<open>
  C10. A VOICE_STATE_UPDATE event with a null channel id deletes the voice state of its
  server id and user id when that voice state is cached (lemma
  \<open>VOICE_STATE_UPDATE_cached_leaves\<close>). When it is not cached, the other branch of the
  handler makes a voice state from the payload and inserts it without looking at the
  channel id: here the store is empty before the event, and afterwards it holds an entry
  under the guild id and the user id of the event, with a null channel, and the
  notification says that no channel was left.
\<close>

theorem voice_state_update_null_channel_inserts:
  "\<not> voiceStates_has (ex_client\<lparr>voiceStates := []\<rparr>) (Some ''g1'') ''u1''
   \<and> vsu_channel_id ex_voice_leave = None
   \<and> js_or (vsu_guild_id ex_voice_leave) (vsu_channel_id ex_voice_leave) = Some ''g1''
   \<and> voiceStates (fst (VOICE_STATE_UPDATE (ex_client\<lparr>voiceStates := []\<rparr>) ex_voice_leave))
       = [((Some ''g1'', ''u1''),
           \<lparr>vs_guildId = Some ''g1'', vs_channelId = None, vs_userId = ''u1''\<rparr>)]
   \<and> voiceStates_has (fst (VOICE_STATE_UPDATE (ex_client\<lparr>voiceStates := []\<rparr>) ex_voice_leave))
        (Some ''g1'') ''u1''
   \<and> \<not> snd (VOICE_STATE_UPDATE (ex_client\<lparr>voiceStates := []\<rparr>) ex_voice_leave)"
  by (simp add: VOICE_STATE_UPDATE_def Let_def voiceStates_has_def voiceStates_get_def
        cache_get2_def ex_voice_leave_def js_or_def truthy_def voiceStates_insert_def
        VoiceState_new_def VoiceState_merge_def serverId_def ex_client_def)

subsection \<open>Reactions\<close>



subsection \<open>GUILD_DELETE\<close>

text \<open>
  C1. When the guild of a GUILD_DELETE event is cached, then after the handler the member
  store holds nothing under the guild id, the voice-state store holds nothing under the
  guild id, and, when the message cache is per guild, the message store holds nothing
  under the guild id. The handler does not touch the user store at all: every user that
  was cached is still cached, in particular every user who is still a member of another
  guild, a recipient of a DM channel, or in a relationship.
\<close>

theorem guild_delete_sweeps:
  assumes "guilds_get (client h) (gd_id data) = Some g"
  shows "cache_get1 (members (client (GUILD_DELETE h data))) (gd_id data) = []
         \<and> (\<forall>u. \<not> members_has (client (GUILD_DELETE h data)) (gd_id data) u)
         \<and> cache_get1 (voiceStates (client (GUILD_DELETE h data))) (Some (gd_id data)) = []
         \<and> (\<forall>u. \<not> voiceStates_has (client (GUILD_DELETE h data)) (Some (gd_id data)) u)
         \<and> (messages_type (client h) = GUILD
              \<longrightarrow> cache_get1 (messages (client (GUILD_DELETE h data))) (gd_id data) = [])
         \<and> users (client (GUILD_DELETE h data)) = users (client h)
         \<and> (\<forall>u. users_has (client (GUILD_DELETE h data)) u = users_has (client h) u)"
proof -
  note f = GUILD_DELETE_client [OF assms]
  have m: "\<not> members_has (client (GUILD_DELETE h data)) (gd_id data) u" for u
    using f by (simp add: members_has_def cache_get1_empty_get2)
  have v: "\<not> voiceStates_has (client (GUILD_DELETE h data)) (Some (gd_id data)) u" for u
    using f by (simp add: voiceStates_has_def cache_get1_empty_get2)
  have u: "users_has (client (GUILD_DELETE h data)) u = users_has (client h) u" for u
    using f by (simp add: users_has_def)
  from f m v u show ?thesis by blast
qed

theorem guild_delete_sweeps_witness:
  "guilds_get (client ex_handler_done) ''g1'' = Some ex_guild
   \<and> messages_type (client ex_handler_done) = GUILD
   \<and> members_has (client ex_handler_done) ''g1'' ''u1''
   \<and> voiceStates_has (client ex_handler_done) (Some ''g1'') ''u1''
   \<and> cache_get1 (messages (client ex_handler_done)) ''g1'' = [(''m1'', ex_message)]
   \<and> users_has (client ex_handler_done) ''u1''
   \<and> cache_get1 (members (client (GUILD_DELETE ex_handler_done
          \<lparr>gd_id = ''g1'', gd_unavailable = None\<rparr>))) ''g1'' = []
   \<and> cache_get1 (voiceStates (client (GUILD_DELETE ex_handler_done
          \<lparr>gd_id = ''g1'', gd_unavailable = None\<rparr>))) (Some ''g1'') = []
   \<and> cache_get1 (messages (client (GUILD_DELETE ex_handler_done
          \<lparr>gd_id = ''g1'', gd_unavailable = None\<rparr>))) ''g1'' = []
   \<and> users_has (client (GUILD_DELETE ex_handler_done \<lparr>gd_id = ''g1'', gd_unavailable = None\<rparr>)) ''u1''"
proof -
  have h: "guilds_get (client ex_handler_done) (gd_id \<lparr>gd_id = ''g1'', gd_unavailable = None\<rparr>)
             = Some ex_guild"
    by (simp add: ex_handler_done_def ex_client_def guilds_get_def coll_get_def ex_guild_def)
  have b: "messages_type (client ex_handler_done) = GUILD"
          "members_has (client ex_handler_done) ''g1'' ''u1''"
          "voiceStates_has (client ex_handler_done) (Some ''g1'') ''u1''"
          "cache_get1 (messages (client ex_handler_done)) ''g1'' = [(''m1'', ex_message)]"
          "users_has (client ex_handler_done) ''u1''"
    by (simp_all add: ex_handler_done_def ex_client_def members_has_def voiceStates_has_def
          cache_get2_def cache_get1_def users_has_def coll_has_def coll_get_def ex_user_def)
  show ?thesis
    using guild_delete_sweeps [OF h] h b by simp
qed

subsection \<open>The member-chunk coordinator\<close>




subsection \<open>Evaluate with the same nonce\<close>

text \<open>
  C6. Two calls of \<open>eval\<close> with the same nonce, the second made while the first is pending,
  do not always resolve to the same value. The first call returns a new promise (0); the
  second returns the other promise of the waiting entry (1) and changes nothing, so no
  second request is sent. When the process exits with code 1 and SIGTERM before the reply,
  the first caller's promise is resolved with the error of the exit and the second
  caller's promise is not settled. A reply that still arrives from the child that has
  exited then resolves the second caller's promise with the value of the reply, and a
  failure of the send rejects it: in each case the two callers end with different
  results.
\<close>

theorem same_nonce_callers_diverge_on_exit:
  "fst (eval ex_process (CodeString ''1 + 1'') ''n1'') = Inr 0
   \<and> eval (snd (eval ex_process (CodeString ''1 + 1'') ''n1'')) (CodeString ''1 + 1'') ''n1''
       = (Inr 1, snd (eval ex_process (CodeString ''1 + 1'') ''n1''))
   \<and> promises (onExit 1 ''SIGTERM'' (snd (eval ex_process (CodeString ''1 + 1'') ''n1''))) ! 0
       = Resolved (Some (Error (closed_message 1 ''SIGTERM''), True))
   \<and> promises (onExit 1 ''SIGTERM'' (snd (eval ex_process (CodeString ''1 + 1'') ''n1''))) ! 1
       = Pending
   \<and> promises (exited_child_message 1
         (sendIPC OP_EVAL
            (EvalData ((eval_payload (CodeString ''1 + 1'') ''n1'')\<lparr>ev_result := Some (JNumber 2)\<rparr>))
            False None)
         (onExit 1 ''SIGTERM'' (snd (eval ex_process (CodeString ''1 + 1'') ''n1''))))
       = [Resolved (Some (Error (closed_message 1 ''SIGTERM''), True)),
          Resolved (Some (Value (JNumber 2), False))]
   \<and> promises (eval_send_failed ''n1'' 1 ''Channel closed''
         (onExit 1 ''SIGTERM'' (snd (eval ex_process (CodeString ''1 + 1'') ''n1''))))
       = [Resolved (Some (Error (closed_message 1 ''SIGTERM''), True)),
          Rejected ''Channel closed'']"
proof -
  let ?s1 = "snd (eval ex_process (CodeString ''1 + 1'') ''n1'')"
  let ?e = "Resolved (Some (Error (closed_message 1 ''SIGTERM''), True))"
  let ?m = "sendIPC OP_EVAL
            (EvalData ((eval_payload (CodeString ''1 + 1'') ''n1'')\<lparr>ev_result := Some (JNumber 2)\<rparr>))
            False None"
  have s1: "eval ex_process (CodeString ''1 + 1'') ''n1''
      = (Inr 0,
         ex_process\<lparr>process := Some \<lparr>pid = 1, listeners = [(''n1'', 1)],
                                      sent = [eval_request (CodeString ''1 + 1'') ''n1'']\<rparr>,
                    promises := [Pending, Pending],
                    evalsWaiting := [(''n1'', \<lparr>promise = 1, resolve = 0, reject = 0\<rparr>)],
                    thens := [(1, 0)]\<rparr>)"
    by (simp add: eval_def Let_def ex_process_def)
  have s2: "eval ?s1 (CodeString ''1 + 1'') ''n1'' = (Inr 1, ?s1)"
    unfolding s1 by (simp add: eval_def ex_process_def)
  have s3: "onExit 1 ''SIGTERM'' ?s1
      = ex_process\<lparr>process := None,
                   exited := [\<lparr>pid = 1, listeners = [(''n1'', 1)],
                               sent = [eval_request (CodeString ''1 + 1'') ''n1'']\<rparr>],
                   promises := [?e, Pending],
                   evalsWaiting := [],
                   thens := [(1, 0)]\<rparr>"
    unfolding s1
    by (simp add: onExit_def Let_def exit_entry_def settle_def ex_process_def)
  have a: "promises (exited_child_message 1 ?m (onExit 1 ''SIGTERM'' ?s1))
             = [?e, Resolved (Some (Value (JNumber 2), False))]"
    unfolding s3
    by (simp add: exited_child_message_def listener_def removeListener_def Let_def
          settle_chain_def settle_def sendIPC_def eval_payload_def reply_outcome_def
          ex_process_def)
  have b: "promises (eval_send_failed ''n1'' 1 ''Channel closed'' (onExit 1 ''SIGTERM'' ?s1))
             = [?e, Rejected ''Channel closed'']"
    unfolding s3
    by (simp add: eval_send_failed_def removeListener_def Let_def settle_chain_def settle_def
          ex_process_def)
  show ?thesis using s2 a b unfolding s3 by (simp add: s1)
qed

text \<open>
  What does hold, in a process with a child, for a nonce that is not waiting: the second
  call returns the promise of the waiting entry and changes nothing; both promises are
  pending, and when the reply with that nonce arrives from the current child both are
  resolved with the same value, the one the reply carries. They then keep that value
  whatever arrives next: a further message, the same reply again, or the exit of the
  process.
\<close>

lemma eval_same_nonce_reply:
  assumes "process s0 = Some child" "map_of (evalsWaiting s0) nonce = None" "promises_wf s0"
      and "msg_op m = OP_EVAL" "msg_data m = EvalData d" "ev_nonce d = nonce"
  shows "fst (eval s0 c nonce) = Inr (length (promises s0))
         \<and> eval (snd (eval s0 c nonce)) c' nonce
             = (Inr (Suc (length (promises s0))), snd (eval s0 c nonce))
         \<and> promises (snd (eval s0 c nonce)) ! length (promises s0) = Pending
         \<and> promises (snd (eval s0 c nonce)) ! Suc (length (promises s0)) = Pending
         \<and> promises (child_message m (snd (eval s0 c nonce))) ! length (promises s0)
             = Resolved (reply_outcome d)
         \<and> promises (child_message m (snd (eval s0 c nonce))) ! Suc (length (promises s0))
             = Resolved (reply_outcome d)
         \<and> (\<forall>m'. promises (child_message m' (child_message m (snd (eval s0 c nonce))))
                    ! length (promises s0) = Resolved (reply_outcome d)
                \<and> promises (child_message m' (child_message m (snd (eval s0 c nonce))))
                    ! Suc (length (promises s0)) = Resolved (reply_outcome d))
         \<and> (\<forall>ec sg. promises (onExit ec sg (child_message m (snd (eval s0 c nonce))))
                    ! length (promises s0) = Resolved (reply_outcome d)
                \<and> promises (onExit ec sg (child_message m (snd (eval s0 c nonce))))
                    ! Suc (length (promises s0)) = Resolved (reply_outcome d))"
proof -
  let ?k = "length (promises s0)"
  let ?s1 = "snd (eval s0 c nonce)"
  let ?s2 = "child_message m ?s1"
  note fr = eval_fresh[OF assms(1,2), of c]
  have a: "fst (eval s0 c nonce) = Inr ?k" by (simp add: fr)
  have b: "eval ?s1 c' nonce = (Inr (Suc ?k), ?s1)" by (rule eval_again[OF assms(1,2)])
  have p: "promises ?s1 ! ?k = Pending" "promises ?s1 ! Suc ?k = Pending"
    by (simp_all add: fr nth_append)
  have r: "promises ?s2 ! ?k = Resolved (reply_outcome d)"
          "promises ?s2 ! Suc ?k = Resolved (reply_outcome d)"
    using eval_then_reply[OF assms, of c] by simp_all
  have len: "length (promises ?s2) = ?k + 2"
    by (simp add: child_message_length fr)
  have f1: "promises (child_message m' ?s2) ! ?k = Resolved (reply_outcome d)
          \<and> promises (child_message m' ?s2) ! Suc ?k = Resolved (reply_outcome d)" for m'
    using child_message_final[of ?k ?s2 m'] child_message_final[of "Suc ?k" ?s2 m'] r len by simp
  have f2: "promises (onExit ec sg ?s2) ! ?k = Resolved (reply_outcome d)
          \<and> promises (onExit ec sg ?s2) ! Suc ?k = Resolved (reply_outcome d)" for ec sg
    using onExit_final[of ?k ?s2 ec sg] onExit_final[of "Suc ?k" ?s2 ec sg] r len by simp
  from a b p r f1 f2 show ?thesis by blast
qed

lemma eval_same_nonce_reply_example:
  "process ex_process = Some \<lparr>pid = 1, listeners = [], sent = []\<rparr>
   \<and> map_of (evalsWaiting ex_process) ''n1'' = None
   \<and> promises_wf ex_process
   \<and> fst (eval ex_process (CodeString ''1 + 1'') ''n1'') = Inr 0
   \<and> fst (eval (snd (eval ex_process (CodeString ''1 + 1'') ''n1'')) (CodeString ''1 + 1'') ''n1'')
       = Inr 1
   \<and> map_option sent (process (snd (eval (snd (eval ex_process (CodeString ''1 + 1'') ''n1''))
        (CodeString ''1 + 1'') ''n1'')))
       = Some [eval_request (CodeString ''1 + 1'') ''n1'']
   \<and> promises (child_message
        (sendIPC OP_EVAL
           (EvalData ((eval_payload (CodeString ''1 + 1'') ''n1'')\<lparr>ev_result := Some (JNumber 2)\<rparr>))
           False None)
        (snd (eval ex_process (CodeString ''1 + 1'') ''n1'')))
       = [Resolved (Some (Value (JNumber 2), False)), Resolved (Some (Value (JNumber 2), False))]"
proof -
  let ?m = "sendIPC OP_EVAL
           (EvalData ((eval_payload (CodeString ''1 + 1'') ''n1'')\<lparr>ev_result := Some (JNumber 2)\<rparr>))
           False None"
  let ?d = "(eval_payload (CodeString ''1 + 1'') ''n1'')\<lparr>ev_result := Some (JNumber 2)\<rparr>"
  let ?s1 = "snd (eval ex_process (CodeString ''1 + 1'') ''n1'')"
  have h: "process ex_process = Some \<lparr>pid = 1, listeners = [], sent = []\<rparr>"
          "map_of (evalsWaiting ex_process) ''n1'' = None" "promises_wf ex_process"
    by (simp_all add: ex_process_def promises_wf_def)
  have m: "msg_op ?m = OP_EVAL" "msg_data ?m = EvalData ?d" "ev_nonce ?d = ''n1''"
    by (simp_all add: sendIPC_def eval_payload_def)
  have o: "reply_outcome ?d = Some (Value (JNumber 2), False)"
    by (simp add: reply_outcome_def eval_payload_def)
  have k: "length (promises ex_process) = 0" by (simp add: ex_process_def)
  have len: "length (promises (child_message ?m ?s1)) = 2"
    by (simp add: child_message_length eval_fresh [OF h(1,2)] k)
  note t = eval_same_nonce_reply [OF h m, of "CodeString ''1 + 1''" "CodeString ''1 + 1''"]
  have p: "promises (child_message ?m ?s1) ! 0 = Resolved (Some (Value (JNumber 2), False))"
          "promises (child_message ?m ?s1) ! 1 = Resolved (Some (Value (JNumber 2), False))"
    using t o k by simp_all
  have l: "promises (child_message ?m ?s1)
             = [Resolved (Some (Value (JNumber 2), False)), Resolved (Some (Value (JNumber 2), False))]"
    using len p by (intro nth_equalityI) (auto simp: less_Suc_eq numeral_2_eq_2)
  have s: "map_option sent (process (snd (eval ?s1 (CodeString ''1 + 1'') ''n1'')))
             = Some [eval_request (CodeString ''1 + 1'') ''n1'']"
    using t by (simp add: eval_fresh [OF h(1,2)])
  show ?thesis using t h k l s by simp
qed

subsection \<open>Targeted evaluate\<close>

text \<open>
  C5. A worker that receives the evaluate request of \<open>eval\<close>, targeted at a shard it does not
  own, does not hand the code to \<open>_eval\<close>: it only sends back the payload of the request
  with the ignored marker. When that reply reaches the process that made the call, the
  call resolves to null. A worker that owns the shard evaluates the code and replies with
  the result, and the call then resolves to the pair of the result and false. The two
  differ also when the result is null.
\<close>

theorem targeted_eval_ignored:
  assumes "process s0 = Some child" "map_of (evalsWaiting s0) nonce = None" "promises_wf s0"
      and "sh \<notin> set (shards w)"
  shows "child_onMessage eval_fn w (Envelope ((eval_request c nonce)\<lparr>msg_shard := Some sh\<rparr>))
           = w\<lparr>sent_to_parent := sent_to_parent w
                 @ [sendIPC OP_EVAL (EvalData ((eval_payload c nonce)\<lparr>ev_ignored := Some True\<rparr>))
                      False None]\<rparr>
         \<and> promises (child_message
               (sendIPC OP_EVAL (EvalData ((eval_payload c nonce)\<lparr>ev_ignored := Some True\<rparr>)) False None)
               (snd (eval s0 c nonce))) ! length (promises s0)
             = Resolved None
         \<and> (\<forall>w' v. sh \<in> set (shards w') \<longrightarrow> eval_fn (code_text c) = Inr v \<longrightarrow>
              child_onMessage eval_fn w' (Envelope ((eval_request c nonce)\<lparr>msg_shard := Some sh\<rparr>))
                = w'\<lparr>evaluated := evaluated w' @ [code_text c],
                      sent_to_parent := sent_to_parent w'
                        @ [sendIPC OP_EVAL (EvalData ((eval_payload c nonce)\<lparr>ev_result := Some v\<rparr>))
                             False None]\<rparr>)
         \<and> (\<forall>v. promises (child_message
               (sendIPC OP_EVAL (EvalData ((eval_payload c nonce)\<lparr>ev_result := Some v\<rparr>)) False None)
               (snd (eval s0 c nonce))) ! length (promises s0)
             = Resolved (Some (Value v, False)))
         \<and> promises (child_message
               (sendIPC OP_EVAL (EvalData ((eval_payload c nonce)\<lparr>ev_result := Some JNull\<rparr>)) False None)
               (snd (eval s0 c nonce))) ! length (promises s0)
           \<noteq> promises (child_message
               (sendIPC OP_EVAL (EvalData ((eval_payload c nonce)\<lparr>ev_ignored := Some True\<rparr>)) False None)
               (snd (eval s0 c nonce))) ! length (promises s0)"
proof -
  let ?ign = "sendIPC OP_EVAL (EvalData ((eval_payload c nonce)\<lparr>ev_ignored := Some True\<rparr>)) False None"
  let ?res = "\<lambda>v. sendIPC OP_EVAL (EvalData ((eval_payload c nonce)\<lparr>ev_result := Some v\<rparr>)) False None"
  have a: "child_onMessage eval_fn w (Envelope ((eval_request c nonce)\<lparr>msg_shard := Some sh\<rparr>))
           = w\<lparr>sent_to_parent := sent_to_parent w @ [?ign]\<rparr>"
    using assms(4) by (intro child_ignored) (simp_all add: eval_request_def sendIPC_def)
  have b: "promises (child_message ?ign (snd (eval s0 c nonce))) ! length (promises s0) = Resolved None"
    using eval_then_reply[OF assms(1-3), of ?ign "(eval_payload c nonce)\<lparr>ev_ignored := Some True\<rparr>" c]
    by (simp add: sendIPC_def eval_payload_def reply_outcome_def)
  have c: "promises (child_message (?res v) (snd (eval s0 c nonce))) ! length (promises s0)
             = Resolved (Some (Value v, False))" for v
    using eval_then_reply[OF assms(1-3), of "?res v" "(eval_payload c nonce)\<lparr>ev_result := Some v\<rparr>" c]
    by (simp add: sendIPC_def eval_payload_def reply_outcome_def)
  have e: "child_onMessage eval_fn w' (Envelope ((eval_request c nonce)\<lparr>msg_shard := Some sh\<rparr>))
                = w'\<lparr>evaluated := evaluated w' @ [code_text c],
                      sent_to_parent := sent_to_parent w' @ [?res v]\<rparr>"
    if "sh \<in> set (shards w')" "eval_fn (code_text c) = Inr v" for w' v
    using that child_executes [of "(eval_request c nonce)\<lparr>msg_shard := Some sh\<rparr>"
        "eval_payload c nonce" w' eval_fn v]
    by (simp add: eval_request_def sendIPC_def eval_payload_def)
  from a b c e show ?thesis by simp
qed

theorem targeted_eval_ignored_witness:
  "process ex_process = Some \<lparr>pid = 1, listeners = [], sent = []\<rparr>
   \<and> map_of (evalsWaiting ex_process) ''n1'' = None
   \<and> promises_wf ex_process
   \<and> 5 \<notin> set (shards ex_worker) \<and> 5 \<in> set (shards (ex_worker\<lparr>shards := [5]\<rparr>))
   \<and> ex_eval_fn (code_text (CodeString ''null'')) = Inr JNull
   \<and> child_onMessage ex_eval_fn ex_worker
        (Envelope ((eval_request (CodeString ''null'') ''n1'')\<lparr>msg_shard := Some 5\<rparr>))
       = ex_worker\<lparr>sent_to_parent :=
           [sendIPC OP_EVAL (EvalData ((eval_payload (CodeString ''null'') ''n1'')\<lparr>ev_ignored := Some True\<rparr>))
              False None]\<rparr>
   \<and> promises (child_message
        (sendIPC OP_EVAL (EvalData ((eval_payload (CodeString ''null'') ''n1'')\<lparr>ev_ignored := Some True\<rparr>))
           False None)
        (snd (eval ex_process (CodeString ''null'') ''n1''))) ! 0
       = Resolved None
   \<and> child_onMessage ex_eval_fn (ex_worker\<lparr>shards := [5]\<rparr>)
        (Envelope ((eval_request (CodeString ''null'') ''n1'')\<lparr>msg_shard := Some 5\<rparr>))
       = ex_worker\<lparr>shards := [5], evaluated := [''null''],
           sent_to_parent :=
             [sendIPC OP_EVAL (EvalData ((eval_payload (CodeString ''null'') ''n1'')\<lparr>ev_result := Some JNull\<rparr>))
                False None]\<rparr>
   \<and> promises (child_message
        (sendIPC OP_EVAL (EvalData ((eval_payload (CodeString ''null'') ''n1'')\<lparr>ev_result := Some JNull\<rparr>))
           False None)
        (snd (eval ex_process (CodeString ''null'') ''n1''))) ! 0
       = Resolved (Some (Value JNull, False))"
proof -
  have h: "process ex_process = Some \<lparr>pid = 1, listeners = [], sent = []\<rparr>"
          "map_of (evalsWaiting ex_process) ''n1'' = None" "promises_wf ex_process"
    by (simp_all add: ex_process_def promises_wf_def)
  have n: "5 \<notin> set (shards ex_worker)" by (simp add: ex_worker_def)
  have k: "length (promises ex_process) = 0" by (simp add: ex_process_def)
  have e: "ex_eval_fn (code_text (CodeString ''null'')) = Inr JNull"
          "code_text (CodeString ''null'') = ''null''"
    by (simp_all add: ex_eval_fn_def code_text_def)
  have w: "5 \<in> set (shards (ex_worker\<lparr>shards := [5]\<rparr>))"
          "sent_to_parent ex_worker = []" "evaluated ex_worker = []"
    by (simp_all add: ex_worker_def)
  note t = targeted_eval_ignored [OF h n, of ex_eval_fn "CodeString ''null''"]
  have x: "child_onMessage ex_eval_fn (ex_worker\<lparr>shards := [5]\<rparr>)
        (Envelope ((eval_request (CodeString ''null'') ''n1'')\<lparr>msg_shard := Some 5\<rparr>))
       = ex_worker\<lparr>shards := [5], evaluated := [''null''],
           sent_to_parent :=
             [sendIPC OP_EVAL (EvalData ((eval_payload (CodeString ''null'') ''n1'')\<lparr>ev_result := Some JNull\<rparr>))
                False None]\<rparr>"
    using t w e by simp
  show ?thesis using t h n k e w x by simp
qed

subsection \<open>Exit of the worker process\<close>

text \<open>
  C4. \<open>onExit\<close> empties the table of waiting entries and calls the \<open>resolve\<close> of every entry
  with the pair of the error and true (lemma \<open>onExit_resolves_waiting\<close>); the
  message of the error names the exit code and the signal. The \<open>resolve\<close> of an entry
  belongs to the promise that the first caller of the nonce holds. A second caller with
  the same nonce holds the other promise of the entry, the one \<open>eval\<close> returned from the
  table, and nothing resolves it when the process exits: here two calls are made with the
  nonce \<open>n1\<close>, the process exits with code 1 and SIGTERM, and afterwards the first
  caller's promise (0) is resolved with the error while the second caller's promise (1)
  is still pending; the table is empty, the process has no child, and the only thing left
  that can settle the second caller's promise is the listener on the child that has
  exited, which does not give it the error of the exit.
\<close>

theorem exit_leaves_second_caller_pending:
  "fst (eval ex_process (CodeString ''1 + 1'') ''n1'') = Inr 0
   \<and> fst (eval (snd (eval ex_process (CodeString ''1 + 1'') ''n1'')) (CodeString ''1 + 1'') ''n1'') = Inr 1
   \<and> promises (onExit 1 ''SIGTERM'' (snd (eval ex_process (CodeString ''1 + 1'') ''n1'')))
       = [Resolved (Some (Error (closed_message 1 ''SIGTERM''), True)), Pending]
   \<and> evalsWaiting (onExit 1 ''SIGTERM'' (snd (eval ex_process (CodeString ''1 + 1'') ''n1''))) = []
   \<and> process (onExit 1 ''SIGTERM'' (snd (eval ex_process (CodeString ''1 + 1'') ''n1''))) = None
   \<and> map listeners (exited (onExit 1 ''SIGTERM'' (snd (eval ex_process (CodeString ''1 + 1'') ''n1''))))
       = [[(''n1'', 1)]]"
  by (simp add: eval_def Let_def ex_process_def onExit_def exit_entry_def settle_def update_conv')

end
